theory Spec2Isabelle
  imports Complex_Main
begin

section \<open>The calculator engine of minivac\<close>

text \<open>
  A shallow embedding of \<^verbatim>\<open>src/engine/parser.js\<close> (the later of its two versions, with the
  scientific operator) and of the compute engine (the later version, with the built-in
  callables). JavaScript numbers are modelled by the reals: rounding, overflow, signed
  zeros, \<^verbatim>\<open>NaN\<close> and the infinities of IEEE doubles are outside the model, but for the
  recursion of \<^verbatim>\<open>factorialise\<close>, which is followed on \<^verbatim>\<open>NaN\<close> too. Strings are lists
  of 8-bit characters. A thrown \<^verbatim>\<open>Error\<close> is a value of the type \<open>error\<close>; the state of
  the symbols table at the throw is kept, since JavaScript does not roll it back.
\<close>

subsection \<open>Tokens\<close>

datatype token_type =
  UnsignedNumber | Identifier | PuncOpeningBracket | PuncClosingBracket
  | OperatorAdd | OperatorSubtract | OperatorDivide | OperatorMultiply
  | OperatorPower | OperatorFactorial | OperatorScientific | OperatorFunctionCall

datatype op_type = Unary | Binary

text \<open>\<^verbatim>\<open>Object.values(OperatorTokenTypes).indexOf(t) !== -1\<close>\<close>

fun is_operator_type :: "token_type \<Rightarrow> bool" where
  "is_operator_type OperatorAdd = True"
| "is_operator_type OperatorSubtract = True"
| "is_operator_type OperatorDivide = True"
| "is_operator_type OperatorMultiply = True"
| "is_operator_type OperatorPower = True"
| "is_operator_type OperatorFactorial = True"
| "is_operator_type OperatorScientific = True"
| "is_operator_type OperatorFunctionCall = True"
| "is_operator_type _ = False"

text \<open>The maps \<^verbatim>\<open>OperatorPrecedence\<close> and \<^verbatim>\<open>OperatorType\<close>; a key that is absent gives
  \<^verbatim>\<open>undefined\<close>, here \<open>None\<close>.\<close>

fun OperatorPrecedence :: "token_type \<Rightarrow> nat option" where
  "OperatorPrecedence OperatorFunctionCall = Some 110"
| "OperatorPrecedence OperatorFactorial = Some 100"
| "OperatorPrecedence OperatorPower = Some 90"
| "OperatorPrecedence OperatorScientific = Some 90"
| "OperatorPrecedence OperatorDivide = Some 80"
| "OperatorPrecedence OperatorMultiply = Some 70"
| "OperatorPrecedence OperatorAdd = Some 60"
| "OperatorPrecedence OperatorSubtract = Some 50"
| "OperatorPrecedence _ = None"

fun OperatorType :: "token_type \<Rightarrow> op_type option" where
  "OperatorType OperatorFunctionCall = Some Unary"
| "OperatorType OperatorFactorial = Some Unary"
| "OperatorType OperatorPower = Some Binary"
| "OperatorType OperatorDivide = Some Binary"
| "OperatorType OperatorMultiply = Some Binary"
| "OperatorType OperatorAdd = Some Binary"
| "OperatorType OperatorSubtract = Some Binary"
| "OperatorType OperatorScientific = Some Binary"
| "OperatorType _ = None"

record token =
  tok_text :: string
  tok_type :: token_type
  tok_precedence :: nat
  tok_opType :: op_type

definition hasHigherPrecedenceThan :: "token \<Rightarrow> token \<Rightarrow> bool" where
  "hasHigherPrecedenceThan t anotherToken \<longleftrightarrow> tok_precedence t > tok_precedence anotherToken"

definition isOperator :: "token \<Rightarrow> bool" where
  "isOperator t \<longleftrightarrow> is_operator_type (tok_type t)"

definition isBinaryOperator :: "token \<Rightarrow> bool" where
  "isBinaryOperator t \<longleftrightarrow> isOperator t \<and> tok_opType t = Binary"

definition isUnsignedNumber :: "token \<Rightarrow> bool" where
  "isUnsignedNumber t \<longleftrightarrow> tok_type t = UnsignedNumber"

definition isPlus :: "token \<Rightarrow> bool" where
  "isPlus t \<longleftrightarrow> tok_type t = OperatorAdd"

definition isMinus :: "token \<Rightarrow> bool" where
  "isMinus t \<longleftrightarrow> tok_type t = OperatorSubtract"

definition isPlusOrMinus :: "token \<Rightarrow> bool" where
  "isPlusOrMinus t \<longleftrightarrow> isPlus t \<or> isMinus t"

definition isFactorial :: "token \<Rightarrow> bool" where
  "isFactorial t \<longleftrightarrow> isOperator t \<and> tok_type t = OperatorFactorial"

definition isVariable :: "token \<Rightarrow> bool" where
  "isVariable t \<longleftrightarrow> tok_type t = Identifier"

definition isFunctionCall :: "token \<Rightarrow> bool" where
  "isFunctionCall t \<longleftrightarrow> isOperator t \<and> tok_type t = OperatorFunctionCall"

definition isOpeningBracket :: "token \<Rightarrow> bool" where
  "isOpeningBracket t \<longleftrightarrow> tok_type t = PuncOpeningBracket"

definition isClosingBracket :: "token \<Rightarrow> bool" where
  "isClosingBracket t \<longleftrightarrow> tok_type t = PuncClosingBracket"

subsection \<open>Errors\<close>

text \<open>
  The name a \<^verbatim>\<open>VariableExpression\<close> holds: \<^verbatim>\<open>Parser.parse\<close> builds it from \<^verbatim>\<open>token.text\<close>,
  \<^verbatim>\<open>Parser.nextAsRightOperand\<close> from the token object itself.
\<close>

datatype var_ref = NameText string | NameToken token

text \<open>
  One constructor for each \<^verbatim>\<open>throw new Error(...)\<close> of the source, by its message, and
  \<open>TypeError\<close> for reading a property of \<^verbatim>\<open>null\<close> or \<^verbatim>\<open>undefined\<close>.
\<close>

datatype error =
  UnknownTokens
  | CannotModify string
  | NotStoredVariable var_ref
  | NotStoredFunction string
  | UnknownUnaryOperator
  | ExpressionCannotStartWith string
  | ExpectedAnOperator
  | BinaryOperatorRequiresTwoOperands
  | UnexpectedOperand string
  | UnmatchedBrackets
  | InvalidFunctionCall
  | UnknownAssignment
  | CannotDivideByZero
  | TypeError

subsection \<open>Tokeniser\<close>

definition is_digit :: "char \<Rightarrow> bool" where
  "is_digit c \<longleftrightarrow> c \<in> set ''0123456789''"

definition is_lower :: "char \<Rightarrow> bool" where
  "is_lower c \<longleftrightarrow> c \<in> set ''abcdefghijklmnopqrstuvwxyz''"

text \<open>The white space \<^verbatim>\<open>String.prototype.trim\<close> removes, among the 8-bit characters:
  tab, line feed, vertical tab, form feed, carriage return, space and no-break space.\<close>

definition is_space :: "char \<Rightarrow> bool" where
  "is_space c \<longleftrightarrow> c \<in> {CHR 0x09, CHR 0x0A, CHR 0x0B, CHR 0x0C, CHR 0x0D, CHR 0x20, CHR 0xA0}"

definition trim :: "string \<Rightarrow> string" where
  "trim s = rev (dropWhile is_space (rev (dropWhile is_space s)))"

text \<open>\<^verbatim>\<open>/^\d+(\.\d+)?/\<close>: the digits, then a dot and digits when both are there.\<close>

definition match_number :: "string \<Rightarrow> string option" where
  "match_number s =
     (let ds = takeWhile is_digit s in
      if ds = [] then None
      else (case drop (length ds) s of
              [] \<Rightarrow> Some ds
            | c # r \<Rightarrow>
                if c = CHR ''.'' \<and> takeWhile is_digit r \<noteq> []
                then Some (ds @ c # takeWhile is_digit r) else Some ds))"

text \<open>\<^verbatim>\<open>/^[a-z]+/\<close>\<close>

definition match_identifier :: "string \<Rightarrow> string option" where
  "match_identifier s =
     (let ls = takeWhile is_lower s in if ls = [] then None else Some ls)"

text \<open>A matcher of one literal character, as \<^verbatim>\<open>/^\(/\<close>; \<^verbatim>\<open>/^\E/\<close> matches the letter E.\<close>

definition match_char :: "char \<Rightarrow> string \<Rightarrow> string option" where
  "match_char c s = (case s of [] \<Rightarrow> None | d # _ \<Rightarrow> if d = c then Some [c] else None)"

text \<open>\<^verbatim>\<open>_getMatchers\<close>: the matchers in the order the map was filled.\<close>

definition getMatchers :: "((string \<Rightarrow> string option) \<times> token_type) list" where
  "getMatchers =
     [(match_number, UnsignedNumber),
      (match_identifier, Identifier),
      (match_char CHR ''('', PuncOpeningBracket),
      (match_char CHR '')'', PuncClosingBracket),
      (match_char CHR ''+'', OperatorAdd),
      (match_char CHR ''-'', OperatorSubtract),
      (match_char CHR ''*'', OperatorMultiply),
      (match_char CHR ''/'', OperatorDivide),
      (match_char CHR ''!'', OperatorFactorial),
      (match_char CHR ''^'', OperatorPower),
      (match_char CHR ''E'', OperatorScientific)]"

definition isAFunction :: "string \<Rightarrow> string list \<Rightarrow> bool" where
  "isAFunction identifierName availableFunctions \<longleftrightarrow> identifierName \<in> set availableFunctions"

text \<open>The body of the loop over the matchers in \<^verbatim>\<open>_nextMatchingToken\<close>, for one match.\<close>

definition make_token :: "string \<Rightarrow> token_type \<Rightarrow> string list \<Rightarrow> token" where
  "make_token txt matched availableFunctions =
     (let tokenType =
            (if matched = Identifier \<and> isAFunction txt availableFunctions
             then OperatorFunctionCall else matched) in
      if is_operator_type tokenType
      then \<lparr>tok_text = txt, tok_type = tokenType,
            tok_precedence = (case OperatorPrecedence tokenType of Some p \<Rightarrow> p | None \<Rightarrow> 0),
            tok_opType = (case OperatorType tokenType of Some t \<Rightarrow> t | None \<Rightarrow> Unary)\<rparr>
      else \<lparr>tok_text = txt, tok_type = tokenType, tok_precedence = 0, tok_opType = Unary\<rparr>)"

fun first_match :: "((string \<Rightarrow> string option) \<times> token_type) list \<Rightarrow> string
    \<Rightarrow> (string \<times> token_type) option" where
  "first_match [] input = None"
| "first_match ((m, ty) # ms) input =
     (case m input of Some txt \<Rightarrow> Some (txt, ty) | None \<Rightarrow> first_match ms input)"

text \<open>\<^verbatim>\<open>_nextMatchingToken\<close>: a token, \<^verbatim>\<open>null\<close> at the end of the input, or the error.\<close>

definition nextMatchingToken :: "string \<Rightarrow> string list \<Rightarrow> error + token option" where
  "nextMatchingToken input availableFunctions =
     (case first_match getMatchers input of
        Some (txt, ty) \<Rightarrow> Inr (Some (make_token txt ty availableFunctions))
      | None \<Rightarrow> if length input > 0 then Inl UnknownTokens else Inr None)"

text \<open>\<^verbatim>\<open>input.replace(text, "")\<close> with a string pattern: the first occurrence is removed.\<close>

fun remove_first :: "string \<Rightarrow> string \<Rightarrow> string" where
  "remove_first pat [] = []"
| "remove_first pat (c # cs) =
     (if take (length pat) (c # cs) = pat then drop (length pat) (c # cs)
      else c # remove_first pat cs)"

lemma match_number_prefix:
  "match_number s = Some t \<Longrightarrow> t \<noteq> [] \<and> take (length t) s = t"
proof -
  assume a: "match_number s = Some t"
  let ?ds = "takeWhile is_digit s"
  have s1: "s = ?ds @ drop (length ?ds) s"
    by (metis append_take_drop_id takeWhile_eq_take)
  have p1: "take (length ?ds) s = ?ds"
    by (metis s1 append_eq_conv_conj)
  from a have ne: "?ds \<noteq> []"
    by (auto simp: match_number_def Let_def split: if_splits)
  show ?thesis
  proof (cases "drop (length ?ds) s")
    case Nil
    with a ne have "t = ?ds"
      by (simp add: match_number_def Let_def)
    with ne p1 show ?thesis by simp
  next
    case (Cons c r)
    let ?fs = "takeWhile is_digit r"
    have r1: "r = ?fs @ drop (length ?fs) r"
      by (metis append_take_drop_id takeWhile_eq_take)
    have s2: "s = (?ds @ c # ?fs) @ drop (length ?fs) r"
      using s1 Cons r1 by (metis append.assoc append_Cons)
    have p2: "take (length (?ds @ c # ?fs)) s = ?ds @ c # ?fs"
      by (metis s2 append_eq_conv_conj)
    from a ne Cons have "t = ?ds \<or> t = ?ds @ c # ?fs"
      by (simp add: match_number_def Let_def split: if_splits)
    then show ?thesis
    proof
      assume "t = ?ds"
      with ne p1 show ?thesis by simp
    next
      assume "t = ?ds @ c # ?fs"
      with p2 show ?thesis by simp
    qed
  qed
qed

lemma match_identifier_prefix:
  "match_identifier s = Some t \<Longrightarrow> t \<noteq> [] \<and> take (length t) s = t"
  by (auto simp: match_identifier_def Let_def split: if_splits)
     (metis append_eq_conv_conj takeWhile_dropWhile_id)

lemma match_char_prefix:
  "match_char c s = Some t \<Longrightarrow> t \<noteq> [] \<and> take (length t) s = t"
  by (auto simp: match_char_def split: list.splits if_splits)

lemma first_match_prefix:
  "first_match getMatchers input = Some (txt, ty) \<Longrightarrow> txt \<noteq> [] \<and> take (length txt) input = txt"
  by (auto simp: getMatchers_def split: option.splits
      dest: match_number_prefix match_identifier_prefix match_char_prefix)

lemma remove_first_prefix:
  "take (length pat) s = pat \<Longrightarrow> remove_first pat s = drop (length pat) s"
  by (cases s) auto

lemma length_trim: "length (trim s) \<le> length s"
proof -
  have "length (dropWhile is_space (rev (dropWhile is_space s))) \<le> length (rev (dropWhile is_space s))"
    by (rule length_dropWhile_le)
  also have "\<dots> \<le> length s"
    by (simp add: length_dropWhile_le)
  finally show ?thesis by (simp add: trim_def)
qed

lemma nextMatchingToken_shrinks:
  assumes "nextMatchingToken input fns = Inr (Some t)"
  shows "length (trim (remove_first (tok_text t) input)) < length input"
proof -
  from assms obtain tx ty where fm: "first_match getMatchers input = Some (tx, ty)"
    and t: "t = make_token tx ty fns"
    by (auto simp: nextMatchingToken_def split: option.splits if_splits)
  have tt: "tok_text t = tx"
    by (simp add: t make_token_def Let_def)
  from first_match_prefix[OF fm] have ne: "tx \<noteq> []" and pre: "take (length tx) input = tx"
    by auto
  from pre have "length (take (length tx) input) = length tx"
    by simp
  then have "length tx \<le> length input"
    by simp
  with ne have "length (drop (length tx) input) < length input"
    by (cases tx) auto
  with length_trim[of "drop (length tx) input"] show ?thesis
    by (simp add: tt remove_first_prefix[OF pre])
qed

text \<open>\<^verbatim>\<open>Tokeniser.tokenise\<close>: the loop, with the tokens pushed so far.\<close>

function tokenise_loop :: "string \<Rightarrow> string list \<Rightarrow> token list \<Rightarrow> error + token list" where
  "tokenise_loop input availableFunctions out =
     (case nextMatchingToken input availableFunctions of
        Inl e \<Rightarrow> Inl e
      | Inr None \<Rightarrow> Inr out
      | Inr (Some nextToken) \<Rightarrow>
          tokenise_loop (trim (remove_first (tok_text nextToken) input)) availableFunctions
            (out @ [nextToken]))"
  by pat_completeness auto
termination
  by (relation "measure (\<lambda>(input, fns, out). length input)")
     (auto dest: nextMatchingToken_shrinks)

declare tokenise_loop.simps [simp del]

definition tokenise :: "string \<Rightarrow> string list \<Rightarrow> error + token list" where
  "tokenise input availableFunctions = tokenise_loop input availableFunctions []"

subsection \<open>Expressions and the symbols table\<close>

text \<open>
  The classes that extend \<^verbatim>\<open>Expression\<close>: those of the parser, and the built-in callables
  of the compute engine.
\<close>

datatype expr =
  ConstantExpression real
  | VariableExpression var_ref
  | BinaryExpression string expr expr
  | FactorialExpression expr
  | FunctionCallExpression string expr
  | SinExpr | ASinExpr | ASinhExpr
  | CosExpr | ACosExpr | ACoshExpr
  | TanExpr | ATanExpr | ATanhExpr
  | DegToRad | RadToDeg

text \<open>A \<^verbatim>\<open>Variable\<close> holds a number, a \<^verbatim>\<open>Callable\<close> an expression.\<close>

record variable =
  var_name :: string
  var_value :: real
  var_isFinal :: bool

record callable =
  call_name :: string
  call_expression :: expr
  call_isFinal :: bool

record symbols_table =
  variables :: "variable list"
  callables :: "callable list"

text \<open>The second argument of \<^verbatim>\<open>setSymbol\<close>: a number or an \<^verbatim>\<open>Expression\<close>.\<close>

datatype symbol_value = NumberValue real | ExpressionValue expr

text \<open>\<^verbatim>\<open>Variable.setTo\<close>, on a variable and on a callable.\<close>

definition setTo :: "variable \<Rightarrow> real \<Rightarrow> error + variable" where
  "setTo v newValue =
     (if var_isFinal v then Inl (CannotModify (var_name v)) else Inr (v\<lparr>var_value := newValue\<rparr>))"

definition setTo_callable :: "callable \<Rightarrow> expr \<Rightarrow> error + callable" where
  "setTo_callable c newValue =
     (if call_isFinal c then Inl (CannotModify (call_name c))
      else Inr (c\<lparr>call_expression := newValue\<rparr>))"

text \<open>
  The \<^verbatim>\<open>forEach\<close> of \<^verbatim>\<open>setSymbol\<close>: every entry of the name is set, in order; a throw
  leaves the entries before it set. The result is the error or the flag \<^verbatim>\<open>exists\<close>.
\<close>

fun forEach_variables :: "string \<Rightarrow> real \<Rightarrow> variable list \<Rightarrow> (error + bool) \<times> variable list" where
  "forEach_variables symbolName v [] = (Inr False, [])"
| "forEach_variables symbolName v (x # xs) =
     (if var_name x = symbolName then
        (case setTo x v of
           Inl e \<Rightarrow> (Inl e, x # xs)
         | Inr x' \<Rightarrow>
             (case forEach_variables symbolName v xs of
                (Inl e, xs') \<Rightarrow> (Inl e, x' # xs')
              | (Inr _, xs') \<Rightarrow> (Inr True, x' # xs')))
      else
        (case forEach_variables symbolName v xs of (r, xs') \<Rightarrow> (r, x # xs')))"

fun forEach_callables :: "string \<Rightarrow> expr \<Rightarrow> callable list \<Rightarrow> (error + bool) \<times> callable list" where
  "forEach_callables symbolName v [] = (Inr False, [])"
| "forEach_callables symbolName v (x # xs) =
     (if call_name x = symbolName then
        (case setTo_callable x v of
           Inl e \<Rightarrow> (Inl e, x # xs)
         | Inr x' \<Rightarrow>
             (case forEach_callables symbolName v xs of
                (Inl e, xs') \<Rightarrow> (Inl e, x' # xs')
              | (Inr _, xs') \<Rightarrow> (Inr True, x' # xs')))
      else
        (case forEach_callables symbolName v xs of (r, xs') \<Rightarrow> (r, x # xs')))"

text \<open>\<^verbatim>\<open>SymbolsTable.setSymbol\<close>: the error, if one was thrown, and the table after it.\<close>

fun setSymbol :: "string \<Rightarrow> symbol_value \<Rightarrow> symbols_table \<Rightarrow> error option \<times> symbols_table" where
  "setSymbol symbolName (ExpressionValue v) st =
     (case forEach_callables symbolName v (callables st) of
        (Inl e, cs) \<Rightarrow> (Some e, st\<lparr>callables := cs\<rparr>)
      | (Inr ex, cs) \<Rightarrow>
          if \<not> ex
          then (None, st\<lparr>callables := cs @ [\<lparr>call_name = symbolName, call_expression = v,
                                                call_isFinal = False\<rparr>]\<rparr>)
          else (None, st\<lparr>callables := cs\<rparr>))"
| "setSymbol symbolName (NumberValue v) st =
     (case forEach_variables symbolName v (variables st) of
        (Inl e, vs) \<Rightarrow> (Some e, st\<lparr>variables := vs\<rparr>)
      | (Inr ex, vs) \<Rightarrow>
          if \<not> ex
          then (None, st\<lparr>variables := vs @ [\<lparr>var_name = symbolName, var_value = v,
                                                var_isFinal = False\<rparr>]\<rparr>)
          else (None, st\<lparr>variables := vs\<rparr>))"

text \<open>\<^verbatim>\<open>getVariable\<close> compares \<^verbatim>\<open>variable.name === name\<close>: a token object equals no name.\<close>

definition getVariable :: "symbols_table \<Rightarrow> var_ref \<Rightarrow> error + variable" where
  "getVariable st name =
     (case filter (\<lambda>v. NameText (var_name v) = name) (variables st) of
        [] \<Rightarrow> Inl (NotStoredVariable name)
      | v # _ \<Rightarrow> Inr v)"

definition getCallable :: "symbols_table \<Rightarrow> string \<Rightarrow> error + callable" where
  "getCallable st name =
     (case filter (\<lambda>c. call_name c = name) (callables st) of
        [] \<Rightarrow> Inl (NotStoredFunction name)
      | c # _ \<Rightarrow> Inr c)"

subsection \<open>Evaluation\<close>

text \<open>
  \<^verbatim>\<open>FactorialExpression.factorialise\<close> calls itself on \<^verbatim>\<open>value - 1\<close> until one of its two
  tests holds, which on some numbers never happens. The two tests \<^verbatim>\<open>value < 0\<close> and
  \<^verbatim>\<open>value === 0\<close>, the difference \<^verbatim>\<open>value - 1\<close>, the product and the two constants are
  parameters here, so that the recursion can be followed on the reals and on \<^verbatim>\<open>NaN\<close>
  alike. The bound is the depth of calls that the stack allows, and \<open>None\<close> says that it
  was reached.
\<close>

record 'a number_ops =
  lt_zero :: "'a \<Rightarrow> bool"
  eq_zero :: "'a \<Rightarrow> bool"
  sub_one :: "'a \<Rightarrow> 'a"
  mult :: "'a \<Rightarrow> 'a \<Rightarrow> 'a"
  num_minus_one :: 'a
  num_one :: 'a

fun factorialise_on :: "'a number_ops \<Rightarrow> nat \<Rightarrow> 'a \<Rightarrow> 'a option" where
  "factorialise_on ops 0 v = None"
| "factorialise_on ops (Suc n) v =
     (if lt_zero ops v then Some (num_minus_one ops)
      else if eq_zero ops v then Some (num_one ops)
      else (case factorialise_on ops n (sub_one ops v) of
              None \<Rightarrow> None
            | Some r \<Rightarrow> Some (mult ops r v)))"

text \<open>The arguments of the successive calls of \<^verbatim>\<open>factorialise\<close> within the bound, the first
  call's first.\<close>

fun factorialise_calls_on :: "'a number_ops \<Rightarrow> nat \<Rightarrow> 'a \<Rightarrow> 'a list" where
  "factorialise_calls_on ops 0 v = []"
| "factorialise_calls_on ops (Suc n) v =
     v # (if lt_zero ops v \<or> eq_zero ops v then []
          else factorialise_calls_on ops n (sub_one ops v))"

text \<open>The reals, as in the rest of the model.\<close>

definition real_numbers :: "real number_ops" where
  "real_numbers =
     \<lparr>lt_zero = (\<lambda>v. v < 0), eq_zero = (\<lambda>v. v = 0), sub_one = (\<lambda>v. v - 1),
      mult = (\<lambda>r v. r * v), num_minus_one = - 1, num_one = 1\<rparr>"

text \<open>
  The reals and \<^verbatim>\<open>NaN\<close>, the value of \<^verbatim>\<open>Math.pow\<close> for a negative base and a fractional
  exponent: every comparison with \<^verbatim>\<open>NaN\<close> is false, and the difference and the product of
  \<^verbatim>\<open>NaN\<close> are \<^verbatim>\<open>NaN\<close>.
\<close>

datatype js_number = Num real | NaN

definition js_numbers :: "js_number number_ops" where
  "js_numbers =
     \<lparr>lt_zero = (\<lambda>v. case v of Num a \<Rightarrow> a < 0 | NaN \<Rightarrow> False),
      eq_zero = (\<lambda>v. case v of Num a \<Rightarrow> a = 0 | NaN \<Rightarrow> False),
      sub_one = (\<lambda>v. case v of Num a \<Rightarrow> Num (a - 1) | NaN \<Rightarrow> NaN),
      mult = (\<lambda>r v. case r of Num a \<Rightarrow> (case v of Num b \<Rightarrow> Num (a * b) | NaN \<Rightarrow> NaN)
                             | NaN \<Rightarrow> NaN),
      num_minus_one = Num (- 1), num_one = Num 1\<rparr>"

text \<open>\<^verbatim>\<open>BinaryExpression.guidedDivide\<close>\<close>

definition guidedDivide :: "real \<Rightarrow> real \<Rightarrow> error + real" where
  "guidedDivide leftVal rightVal =
     (if \<bar>rightVal\<bar> < 0.00000001 then Inl CannotDivideByZero else Inr (leftVal / rightVal))"

text \<open>
  \<^verbatim>\<open>Math.pow\<close> where its result is a real number: an integer exponent gives the power or
  its inverse, a positive base the real power. Where JavaScript gives \<^verbatim>\<open>NaN\<close> or an
  infinity (a negative base with a fractional exponent, zero to a negative exponent) the
  model says nothing about the result.
\<close>

definition js_pow :: "real \<Rightarrow> real \<Rightarrow> real" where
  "js_pow x y =
     (if y = of_int \<lfloor>y\<rfloor> then
        (if 0 \<le> y then x ^ nat \<lfloor>y\<rfloor>
         else if x = 0 then undefined
         else 1 / x ^ nat (- \<lfloor>y\<rfloor>))
      else if 0 < x then x powr y
      else if x = 0 \<and> 0 < y then 0
      else undefined)"

text \<open>The \<^verbatim>\<open>switch\<close> of \<^verbatim>\<open>BinaryExpression.eval\<close>, on the operator's text.\<close>

definition apply_operator :: "string \<Rightarrow> real \<Rightarrow> real \<Rightarrow> error + real" where
  "apply_operator operator leftVal rightVal =
     (if operator = ''+'' then Inr (leftVal + rightVal)
      else if operator = ''-'' then Inr (leftVal - rightVal)
      else if operator = ''*'' then Inr (leftVal * rightVal)
      else if operator = ''/'' then guidedDivide leftVal rightVal
      else if operator = ''^'' then Inr (js_pow leftVal rightVal)
      else if operator = ''E'' then Inr (leftVal * js_pow 10 rightVal)
      else Inr (- 1))"

text \<open>
  Modelled from the spec: the built-in callables call \<^verbatim>\<open>this.getXValue(symbolsTable)\<close>, which
  no class of \<^verbatim>\<open>parser.js\<close> defines; the spec has each of them evaluate the implicit
  variable \<open>x\<close> bound before the call. The function of \<^verbatim>\<open>Math\<close> is applied on the reals.
\<close>

definition eval_builtin :: "(real \<Rightarrow> real) \<Rightarrow> symbols_table \<Rightarrow> (error + real) \<times> symbols_table" where
  "eval_builtin f st =
     (case getVariable st (NameText ''x'') of
        Inl e \<Rightarrow> (Inl e, st)
      | Inr x \<Rightarrow> (Inr (f (var_value x)), st))"

text \<open>
  \<^verbatim>\<open>eval\<close> of every class. The result is the number or the thrown error, with the table as
  the evaluation left it. A call of a stored function evaluates an expression of the
  table, which may call itself, and \<^verbatim>\<open>factorialise\<close> calls itself: the first argument bounds
  the depth of such calls, and \<open>None\<close> says that the bound was reached.
\<close>

fun eval :: "nat \<Rightarrow> expr \<Rightarrow> symbols_table \<Rightarrow> ((error + real) \<times> symbols_table) option" where
  "eval n (ConstantExpression v) st = Some (Inr v, st)"
| "eval n (VariableExpression varName) st =
     (case getVariable st varName of
        Inl e \<Rightarrow> Some (Inl e, st)
      | Inr symbol \<Rightarrow> Some (Inr (var_value symbol), st))"
| "eval n (FactorialExpression operand) st =
     (case eval n operand st of
        None \<Rightarrow> None
      | Some (Inl e, st1) \<Rightarrow> Some (Inl e, st1)
      | Some (Inr v, st1) \<Rightarrow>
          (case factorialise_on real_numbers n v of
             None \<Rightarrow> None
           | Some r \<Rightarrow> Some (Inr r, st1)))"
| "eval n (BinaryExpression operator left right) st =
     (case eval n left st of
        None \<Rightarrow> None
      | Some (Inl e, st1) \<Rightarrow> Some (Inl e, st1)
      | Some (Inr leftVal, st1) \<Rightarrow>
          (case eval n right st1 of
             None \<Rightarrow> None
           | Some (Inl e, st2) \<Rightarrow> Some (Inl e, st2)
           | Some (Inr rightVal, st2) \<Rightarrow> Some (apply_operator operator leftVal rightVal, st2)))"
| "eval n (FunctionCallExpression functionName argument) st =
     (case eval n argument st of
        None \<Rightarrow> None
      | Some (Inl e, st1) \<Rightarrow> Some (Inl e, st1)
      | Some (Inr argValue, st1) \<Rightarrow>
          (case setSymbol ''x'' (NumberValue argValue) st1 of
             (Some e, st2) \<Rightarrow> Some (Inl e, st2)
           | (None, st2) \<Rightarrow>
               (case getCallable st2 functionName of
                  Inl e \<Rightarrow> Some (Inl e, st2)
                | Inr c \<Rightarrow>
                    (case n of
                       0 \<Rightarrow> None
                     | Suc m \<Rightarrow> eval m (call_expression c) st2))))"
| "eval n SinExpr st = Some (eval_builtin sin st)"
| "eval n ASinExpr st = Some (eval_builtin arcsin st)"
| "eval n ASinhExpr st = Some (eval_builtin arsinh st)"
| "eval n CosExpr st = Some (eval_builtin cos st)"
| "eval n ACosExpr st = Some (eval_builtin arccos st)"
| "eval n ACoshExpr st = Some (eval_builtin arcosh st)"
| "eval n TanExpr st = Some (eval_builtin tan st)"
| "eval n ATanExpr st = Some (eval_builtin arctan st)"
| "eval n ATanhExpr st = Some (eval_builtin artanh st)"
| "eval n DegToRad st = Some (eval_builtin (\<lambda>x. (x * pi) / 180) st)"
| "eval n RadToDeg st = Some (eval_builtin (\<lambda>x. (x * 180) / pi) st)"

subsection \<open>Parser\<close>

record parsing_result =
  expression :: expr
  nextStartIndex :: nat

text \<open>\<^verbatim>\<open>Number.parseFloat\<close> on the text of a number token: digits, or digits, a dot and digits.
  The value of a digit is its place in the row of the ten digits.\<close>

definition digit_value :: "char \<Rightarrow> nat" where
  "digit_value c = length (takeWhile (\<lambda>d. d \<noteq> c) ''0123456789'')"

definition digits_value :: "string \<Rightarrow> nat" where
  "digits_value ds = foldl (\<lambda>a c. 10 * a + digit_value c) 0 ds"

definition parseFloat :: "string \<Rightarrow> real" where
  "parseFloat s =
     (let ds = takeWhile is_digit s in
      case drop (length ds) s of
        [] \<Rightarrow> of_nat (digits_value ds)
      | c # r \<Rightarrow>
          (let fs = takeWhile is_digit r in
           if c = CHR ''.'' then of_nat (digits_value ds) + of_nat (digits_value fs) / 10 ^ length fs
           else of_nat (digits_value ds)))"

text \<open>\<^verbatim>\<open>Expression.buildUnaryExpression\<close>\<close>

definition buildUnaryExpression :: "expr \<Rightarrow> token \<Rightarrow> error + expr" where
  "buildUnaryExpression operand operatorToken =
     (if isFactorial operatorToken then Inr (FactorialExpression operand)
      else Inl UnknownUnaryOperator)"

text \<open>\<^verbatim>\<open>Expression.buildBinaryExpression\<close>\<close>

definition buildBinaryExpression :: "token \<Rightarrow> expr \<Rightarrow> expr \<Rightarrow> expr" where
  "buildBinaryExpression operatorToken left right =
     BinaryExpression (tok_text operatorToken) left right"

text \<open>\<^verbatim>\<open>Parser._nextOperator\<close>: the first operator token from the index on, or \<^verbatim>\<open>null\<close>.\<close>

definition nextOperator :: "nat \<Rightarrow> token list \<Rightarrow> token option" where
  "nextOperator startIndex tokens = find isOperator (drop startIndex tokens)"

text \<open>The token \<^verbatim>\<open>continueParsing\<close> makes at the end of the input.\<close>

definition addToken :: token where
  "addToken = \<lparr>tok_text = ''+'', tok_type = OperatorAdd, tok_precedence = 60, tok_opType = Binary\<rparr>"

text \<open>
  The five mutually recursive methods of \<^verbatim>\<open>Parser\<close>. Each is written over \<open>this\<close>, the
  methods it may call; \<open>Parser n\<close> ties them together with \<open>n\<close> as the bound on the depth of
  the calls, and \<open>None\<close> says that the bound was reached. \<^verbatim>\<open>parse\<close> and
  \<^verbatim>\<open>continueParsing\<close> may return \<^verbatim>\<open>null\<close> or \<^verbatim>\<open>undefined\<close>, here the inner \<open>None\<close>;
  reading \<^verbatim>\<open>.expression\<close> of it is the \<open>TypeError\<close>.
\<close>

record parser_methods =
  this_parse :: "nat \<Rightarrow> token list \<Rightarrow> (error + parsing_result option) option"
  this_continueParsing :: "expr \<Rightarrow> nat \<Rightarrow> token list \<Rightarrow> (error + parsing_result option) option"
  this_nextAsRightOperand :: "nat \<Rightarrow> token list \<Rightarrow> (error + parsing_result) option"
  this_parseBrackets :: "nat \<Rightarrow> token list \<Rightarrow> (error + parsing_result) option"
  this_parseFunctionCall :: "nat \<Rightarrow> token list \<Rightarrow> (error + parsing_result) option"

definition parse_body :: "parser_methods \<Rightarrow> nat \<Rightarrow> token list \<Rightarrow> (error + parsing_result option) option" where
  "parse_body this startIndex tokens =
     (if startIndex \<ge> length tokens then Some (Inr None)
      else
        let token = tokens ! startIndex in
        if isPlusOrMinus token then
          (case this_nextAsRightOperand this (startIndex + 1) tokens of
             None \<Rightarrow> None
           | Some (Inl e) \<Rightarrow> Some (Inl e)
           | Some (Inr right) \<Rightarrow>
               this_continueParsing this
                 (buildBinaryExpression token (ConstantExpression 0) (expression right))
                 (nextStartIndex right) tokens)
        else if isUnsignedNumber token then
          this_continueParsing this (ConstantExpression (parseFloat (tok_text token)))
            (startIndex + 1) tokens
        else if isVariable token then
          this_continueParsing this (VariableExpression (NameText (tok_text token)))
            (startIndex + 1) tokens
        else if isFunctionCall token then
          (case this_parseFunctionCall this startIndex tokens of
             None \<Rightarrow> None
           | Some (Inl e) \<Rightarrow> Some (Inl e)
           | Some (Inr left) \<Rightarrow>
               this_continueParsing this (expression left) (nextStartIndex left) tokens)
        else if isOpeningBracket token then
          (case this_parseBrackets this startIndex tokens of
             None \<Rightarrow> None
           | Some (Inl e) \<Rightarrow> Some (Inl e)
           | Some (Inr left) \<Rightarrow>
               this_continueParsing this (expression left) (nextStartIndex left) tokens)
        else Some (Inl (ExpressionCannotStartWith (tok_text token))))"

definition continueParsing_body ::
    "parser_methods \<Rightarrow> expr \<Rightarrow> nat \<Rightarrow> token list \<Rightarrow> (error + parsing_result option) option" where
  "continueParsing_body this leftExpression startIndex tokens =
     (if startIndex \<ge> length tokens then
        Some (Inr (Some \<lparr>expression =
                            buildBinaryExpression addToken leftExpression (ConstantExpression 0),
                          nextStartIndex = startIndex\<rparr>))
      else
        let token = tokens ! startIndex in
        if isOperator token \<or> isClosingBracket token then
          (if isClosingBracket token then
             Some (Inr (Some \<lparr>expression = leftExpression, nextStartIndex = startIndex\<rparr>))
           else if isFactorial token then
             (case buildUnaryExpression leftExpression token of
                Inl e \<Rightarrow> Some (Inl e)
              | Inr left \<Rightarrow> this_continueParsing this left (startIndex + 1) tokens)
           else if isBinaryOperator token then
             (if (case nextOperator (startIndex + 1) tokens of
                    None \<Rightarrow> True
                  | Some nextOp \<Rightarrow> hasHigherPrecedenceThan token nextOp)
              then
                (case this_nextAsRightOperand this (startIndex + 1) tokens of
                   None \<Rightarrow> None
                 | Some (Inl e) \<Rightarrow> Some (Inl e)
                 | Some (Inr right) \<Rightarrow>
                     this_continueParsing this
                       (buildBinaryExpression token leftExpression (expression right))
                       (nextStartIndex right) tokens)
              else
                (case this_parse this (startIndex + 1) tokens of
                   None \<Rightarrow> None
                 | Some (Inl e) \<Rightarrow> Some (Inl e)
                 | Some (Inr None) \<Rightarrow> Some (Inl TypeError)
                 | Some (Inr (Some right)) \<Rightarrow>
                     this_continueParsing this
                       (buildBinaryExpression token leftExpression (expression right))
                       (nextStartIndex right) tokens))
           else Some (Inr None))
        else Some (Inl ExpectedAnOperator))"

definition nextAsRightOperand_body ::
    "parser_methods \<Rightarrow> nat \<Rightarrow> token list \<Rightarrow> (error + parsing_result) option" where
  "nextAsRightOperand_body this startIndex tokens =
     (if startIndex \<ge> length tokens then Some (Inl BinaryOperatorRequiresTwoOperands)
      else
        let token = tokens ! startIndex in
        if isVariable token \<or> isUnsignedNumber token then
          Some (Inr \<lparr>expression =
                       (if isVariable token then VariableExpression (NameToken token)
                        else ConstantExpression (parseFloat (tok_text token))),
                     nextStartIndex = startIndex + 1\<rparr>)
        else if isOpeningBracket token then this_parseBrackets this startIndex tokens
        else if isFunctionCall token then this_parseFunctionCall this startIndex tokens
        else if isPlusOrMinus token then
          (case this_nextAsRightOperand this (startIndex + 1) tokens of
             None \<Rightarrow> None
           | Some (Inl e) \<Rightarrow> Some (Inl e)
           | Some (Inr right) \<Rightarrow>
               Some (Inr \<lparr>expression =
                            buildBinaryExpression token (ConstantExpression 0) (expression right),
                          nextStartIndex = nextStartIndex right\<rparr>))
        else Some (Inl (UnexpectedOperand (tok_text token))))"

definition parseBrackets_body ::
    "parser_methods \<Rightarrow> nat \<Rightarrow> token list \<Rightarrow> (error + parsing_result) option" where
  "parseBrackets_body this startIndex tokens =
     (case this_parse this (startIndex + 1) tokens of
        None \<Rightarrow> None
      | Some (Inl e) \<Rightarrow> Some (Inl e)
      | Some (Inr None) \<Rightarrow> Some (Inl UnmatchedBrackets)
      | Some (Inr (Some right)) \<Rightarrow>
          if nextStartIndex right \<ge> length tokens
             \<or> \<not> isClosingBracket (tokens ! nextStartIndex right)
          then Some (Inl UnmatchedBrackets)
          else Some (Inr \<lparr>expression = expression right,
                          nextStartIndex = nextStartIndex right + 1\<rparr>))"

definition parseFunctionCall_body ::
    "parser_methods \<Rightarrow> nat \<Rightarrow> token list \<Rightarrow> (error + parsing_result) option" where
  "parseFunctionCall_body this startIndex tokens =
     (if startIndex + 3 \<ge> length tokens then Some (Inl InvalidFunctionCall)
      else
        (case this_parseBrackets this (startIndex + 1) tokens of
           None \<Rightarrow> None
         | Some (Inl e) \<Rightarrow> Some (Inl e)
         | Some (Inr arg) \<Rightarrow>
             Some (Inr \<lparr>expression =
                          FunctionCallExpression (tok_text (tokens ! startIndex)) (expression arg),
                        nextStartIndex = nextStartIndex arg\<rparr>)))"

primrec Parser :: "nat \<Rightarrow> parser_methods" where
  "Parser 0 =
     \<lparr>this_parse = (\<lambda>startIndex tokens. None),
      this_continueParsing = (\<lambda>leftExpression startIndex tokens. None),
      this_nextAsRightOperand = (\<lambda>startIndex tokens. None),
      this_parseBrackets = (\<lambda>startIndex tokens. None),
      this_parseFunctionCall = (\<lambda>startIndex tokens. None)\<rparr>"
| "Parser (Suc n) =
     \<lparr>this_parse = parse_body (Parser n),
      this_continueParsing = continueParsing_body (Parser n),
      this_nextAsRightOperand = nextAsRightOperand_body (Parser n),
      this_parseBrackets = parseBrackets_body (Parser n),
      this_parseFunctionCall = parseFunctionCall_body (Parser n)\<rparr>"

definition parse :: "nat \<Rightarrow> nat \<Rightarrow> token list \<Rightarrow> (error + parsing_result option) option" where
  "parse n = this_parse (Parser n)"

text \<open>
  \<^verbatim>\<open>Parser.evalString\<close>. The first argument bounds the depth of the calls of the parser and
  of the evaluation.
\<close>

definition evalString :: "nat \<Rightarrow> string \<Rightarrow> symbols_table \<Rightarrow> ((error + real) \<times> symbols_table) option" where
  "evalString n txt symbolsTable =
     (let functionNames = map call_name (callables symbolsTable) in
      case tokenise txt functionNames of
        Inl e \<Rightarrow> Some (Inl e, symbolsTable)
      | Inr tokens \<Rightarrow>
          (case parse n 0 tokens of
             None \<Rightarrow> None
           | Some (Inl e) \<Rightarrow> Some (Inl e, symbolsTable)
           | Some (Inr None) \<Rightarrow> Some (Inl TypeError, symbolsTable)
           | Some (Inr (Some r)) \<Rightarrow> eval n (expression r) symbolsTable))"

subsection \<open>Compute engine\<close>

text \<open>\<^verbatim>\<open>getDefaultSymbolsTable\<close>\<close>

definition getDefaultSymbolsTable :: symbols_table where
  "getDefaultSymbolsTable =
     \<lparr>variables =
        [\<lparr>var_name = ''ans'', var_value = 0, var_isFinal = False\<rparr>,
         \<lparr>var_name = ''preans'', var_value = 0, var_isFinal = False\<rparr>,
         \<lparr>var_name = ''pi'', var_value = pi, var_isFinal = True\<rparr>,
         \<lparr>var_name = ''e'', var_value = exp 1, var_isFinal = True\<rparr>],
      callables =
        [\<lparr>call_name = ''sin'', call_expression = SinExpr, call_isFinal = True\<rparr>,
         \<lparr>call_name = ''asin'', call_expression = ASinExpr, call_isFinal = True\<rparr>,
         \<lparr>call_name = ''asinh'', call_expression = ASinhExpr, call_isFinal = True\<rparr>,
         \<lparr>call_name = ''cos'', call_expression = CosExpr, call_isFinal = True\<rparr>,
         \<lparr>call_name = ''acos'', call_expression = ACosExpr, call_isFinal = True\<rparr>,
         \<lparr>call_name = ''acosh'', call_expression = ACoshExpr, call_isFinal = True\<rparr>,
         \<lparr>call_name = ''tan'', call_expression = TanExpr, call_isFinal = True\<rparr>,
         \<lparr>call_name = ''atan'', call_expression = ATanExpr, call_isFinal = True\<rparr>,
         \<lparr>call_name = ''atanh'', call_expression = ATanhExpr, call_isFinal = True\<rparr>,
         \<lparr>call_name = ''rad'', call_expression = DegToRad, call_isFinal = True\<rparr>,
         \<lparr>call_name = ''deg'', call_expression = RadToDeg, call_isFinal = True\<rparr>]\<rparr>"

text \<open>\<^verbatim>\<open>text.split("=")\<close>: the pieces between the occurrences of the character.\<close>

fun split :: "char \<Rightarrow> string \<Rightarrow> string list" where
  "split c [] = [[]]"
| "split c (d # ds) =
     (if d = c then [] # split c ds
      else (case split c ds of
              [] \<Rightarrow> [[d]]
            | u # us \<Rightarrow> (d # u) # us))"

text \<open>\<^verbatim>\<open>/^[a-z]+\(x\)$/\<close> and \<^verbatim>\<open>/^[a-z]+$/\<close>\<close>

definition funcRegExp :: "string \<Rightarrow> bool" where
  "funcRegExp s \<longleftrightarrow> takeWhile is_lower s \<noteq> [] \<and> dropWhile is_lower s = ''(x)''"

definition varNameRegExp :: "string \<Rightarrow> bool" where
  "varNameRegExp s \<longleftrightarrow> s \<noteq> [] \<and> list_all is_lower s"

text \<open>\<^verbatim>\<open>ComputeEngine._getExpression\<close>\<close>

definition getExpression :: "nat \<Rightarrow> symbols_table \<Rightarrow> string \<Rightarrow> (error + expr) option" where
  "getExpression n st txt =
     (let availableFunctions = map call_name (callables st) in
      case tokenise txt availableFunctions of
        Inl e \<Rightarrow> Some (Inl e)
      | Inr tokens \<Rightarrow>
          (case parse n 0 tokens of
             None \<Rightarrow> None
           | Some (Inl e) \<Rightarrow> Some (Inl e)
           | Some (Inr None) \<Rightarrow> Some (Inl TypeError)
           | Some (Inr (Some r)) \<Rightarrow> Some (Inr (expression r))))"

text \<open>\<^verbatim>\<open>ComputeEngine._handleAssignment\<close>; \<^verbatim>\<open>left.split("(")[0]\<close> is the text before the
  first bracket (\<open>split\<close> never gives the empty list).\<close>

definition handleAssignment ::
    "nat \<Rightarrow> symbols_table \<Rightarrow> string \<Rightarrow> string \<Rightarrow> ((error + real) \<times> symbols_table) option" where
  "handleAssignment n st left right =
     (if funcRegExp left then
        (let functionName = (case split CHR ''('' left of u # _ \<Rightarrow> u | [] \<Rightarrow> []) in
         case getExpression n st right of
           None \<Rightarrow> None
         | Some (Inl e) \<Rightarrow> Some (Inl e, st)
         | Some (Inr parsed) \<Rightarrow>
             (case setSymbol functionName (ExpressionValue parsed) st of
                (Some e, st1) \<Rightarrow> Some (Inl e, st1)
              | (None, st1) \<Rightarrow> Some (Inr 0, st1)))
      else if varNameRegExp left then
        (case evalString n right st of
           None \<Rightarrow> None
         | Some (Inl e, st1) \<Rightarrow> Some (Inl e, st1)
         | Some (Inr v, st1) \<Rightarrow>
             (case setSymbol left (NumberValue v) st1 of
                (Some e, st2) \<Rightarrow> Some (Inl e, st2)
              | (None, st2) \<Rightarrow> Some (Inr 0, st2)))
      else Some (Inl UnknownAssignment, st))"

text \<open>
  \<^verbatim>\<open>ComputeEngine.run\<close>, on the engine's symbols table: the returned number or the thrown
  error, and the table after the call.
\<close>

definition run :: "nat \<Rightarrow> symbols_table \<Rightarrow> string \<Rightarrow> ((error + real) \<times> symbols_table) option" where
  "run n st txt =
     (if CHR ''='' \<in> set txt then
        (case split CHR ''='' txt of
           l # r # _ \<Rightarrow> handleAssignment n st (trim l) (trim r)
         | _ \<Rightarrow> Some (Inl TypeError, st))
      else
        (case evalString n txt st of
           None \<Rightarrow> None
         | Some (Inl e, st1) \<Rightarrow> Some (Inl e, st1)
         | Some (Inr ret, st1) \<Rightarrow>
             (case getVariable st1 (NameText ''ans'') of
                Inl e \<Rightarrow> Some (Inl e, st1)
              | Inr a \<Rightarrow>
                  (case setSymbol ''preans'' (NumberValue (var_value a)) st1 of
                     (Some e, st2) \<Rightarrow> Some (Inl e, st2)
                   | (None, st2) \<Rightarrow>
                       (case setSymbol ''ans'' (NumberValue ret) st2 of
                          (Some e, st3) \<Rightarrow> Some (Inl e, st3)
                        | (None, st3) \<Rightarrow> Some (Inr ret, st3))))))"

text \<open>
  Modelled from the spec: the taxonomy of errors of its section 7, which the source does
  not have (it throws \<^verbatim>\<open>Error\<close> with a message). A \<open>TypeError\<close> is none of them.
\<close>

datatype taxonomy =
  TokeniseError | SymbolLookupError | SymbolMutationError | SyntaxError | ArithmeticError

fun taxonomy_of :: "error \<Rightarrow> taxonomy option" where
  "taxonomy_of UnknownTokens = Some TokeniseError"
| "taxonomy_of (NotStoredVariable _) = Some SymbolLookupError"
| "taxonomy_of (NotStoredFunction _) = Some SymbolLookupError"
| "taxonomy_of (CannotModify _) = Some SymbolMutationError"
| "taxonomy_of CannotDivideByZero = Some ArithmeticError"
| "taxonomy_of TypeError = None"
| "taxonomy_of _ = Some SyntaxError"

subsection \<open>The caller\<close>

text \<open>
  \<^verbatim>\<open>doQuery\<close> of \<^verbatim>\<open>index.js\<close> calls \<^verbatim>\<open>engine.run\<close> on each line, catches what it throws and
  goes on with the table as the call left it. \<open>runs\<close> is a session of such lines: the
  outcome of each, and the table at the end.
\<close>

fun runs :: "nat \<Rightarrow> symbols_table \<Rightarrow> string list \<Rightarrow> ((error + real) list \<times> symbols_table) option" where
  "runs n st [] = Some ([], st)"
| "runs n st (query # queries) =
     (case run n st query of
        None \<Rightarrow> None
      | Some (r, st1) \<Rightarrow>
          (case runs n st1 queries of
             None \<Rightarrow> None
           | Some (rs, st2) \<Rightarrow> Some (r # rs, st2)))"

text \<open>What a call returned or threw, and the table it left.\<close>

definition outcome :: "('a \<times> symbols_table) option \<Rightarrow> 'a option" where
  "outcome r = map_option fst r"

definition table_after :: "('a \<times> symbols_table) option \<Rightarrow> symbols_table option" where
  "table_after r = map_option snd r"

text \<open>The number a variable holds in the table a call left, as \<^verbatim>\<open>updateVariablesList\<close> reads it.\<close>

definition variable_after :: "('a \<times> symbols_table) option \<Rightarrow> string \<Rightarrow> (error + real) option" where
  "variable_after r name =
     map_option (\<lambda>(_, st). map_sum id var_value (getVariable st (NameText name))) r"

section \<open>Evaluation of the model on concrete inputs\<close>

lemma Parser_numeral:
  "this_parse (Parser (numeral k)) = parse_body (Parser (pred_numeral k))"
  "this_continueParsing (Parser (numeral k)) = continueParsing_body (Parser (pred_numeral k))"
  "this_nextAsRightOperand (Parser (numeral k)) = nextAsRightOperand_body (Parser (pred_numeral k))"
  "this_parseBrackets (Parser (numeral k)) = parseBrackets_body (Parser (pred_numeral k))"
  "this_parseFunctionCall (Parser (numeral k)) = parseFunctionCall_body (Parser (pred_numeral k))"
  by (simp_all add: numeral_eq_Suc)

lemmas tokenise_eval = tokenise_def tokenise_loop.simps nextMatchingToken_def getMatchers_def
  match_number_def match_identifier_def match_char_def make_token_def isAFunction_def
  is_digit_def is_lower_def is_space_def trim_def Let_def

lemmas token_eval = hasHigherPrecedenceThan_def isOperator_def isBinaryOperator_def
  isUnsignedNumber_def isPlus_def isMinus_def isPlusOrMinus_def isFactorial_def isVariable_def
  isFunctionCall_def isOpeningBracket_def isClosingBracket_def

lemmas parse_eval = parse_def Parser_numeral parse_body_def continueParsing_body_def
  nextAsRightOperand_body_def parseBrackets_body_def parseFunctionCall_body_def
  nextOperator_def addToken_def buildBinaryExpression_def buildUnaryExpression_def
  parseFloat_def digits_value_def digit_value_def

lemma factorialise_on_numeral:
  "factorialise_on ops (numeral k) v =
     (if lt_zero ops v then Some (num_minus_one ops)
      else if eq_zero ops v then Some (num_one ops)
      else (case factorialise_on ops (pred_numeral k) (sub_one ops v) of
              None \<Rightarrow> None
            | Some r \<Rightarrow> Some (mult ops r v)))"
  "factorialise_calls_on ops (numeral k) v =
     v # (if lt_zero ops v \<or> eq_zero ops v then []
          else factorialise_calls_on ops (pred_numeral k) (sub_one ops v))"
  by (simp_all add: numeral_eq_Suc)

lemmas eval_eval = apply_operator_def guidedDivide_def js_pow_def factorialise_on_numeral
  real_numbers_def
  getVariable_def getCallable_def setTo_def setTo_callable_def eval_builtin_def

lemmas run_eval = run_def evalString_def getExpression_def handleAssignment_def
  funcRegExp_def varNameRegExp_def getDefaultSymbolsTable_def
  outcome_def table_after_def variable_after_def

lemmas engine_eval = tokenise_eval token_eval parse_eval eval_eval run_eval

section \<open>Properties of the symbols table and of the evaluation\<close>

lemma forEach_variables_no_match:
  "symbolName \<notin> var_name ` set vs \<Longrightarrow> forEach_variables symbolName v vs = (Inr False, vs)"
  by (induction vs) auto

lemma forEach_variables_frame:
  "forEach_variables symbolName v vs = (r, vs') \<Longrightarrow>
     map var_name vs' = map var_name vs
     \<and> map var_isFinal vs' = map var_isFinal vs
     \<and> filter (\<lambda>x. var_name x \<noteq> symbolName) vs' = filter (\<lambda>x. var_name x \<noteq> symbolName) vs"
proof (induction vs arbitrary: r vs')
  case Nil
  then show ?case by simp
next
  case (Cons x xs)
  obtain r1 xs1 where rec: "forEach_variables symbolName v xs = (r1, xs1)"
    by (cases "forEach_variables symbolName v xs")
  from Cons.IH[OF rec] Cons.prems rec show ?case
    by (auto simp: setTo_def split: if_splits sum.splits)
qed

lemma forEach_variables_set:
  "forEach_variables symbolName v vs = (Inr ex, vs') \<Longrightarrow>
     (ex \<longleftrightarrow> symbolName \<in> var_name ` set vs)
     \<and> list_all (\<lambda>x. var_value x = v) (filter (\<lambda>x. var_name x = symbolName) vs')"
proof (induction vs arbitrary: ex vs')
  case Nil
  then show ?case by simp
next
  case (Cons x xs)
  obtain r1 xs1 where rec: "forEach_variables symbolName v xs = (r1, xs1)"
    by (cases "forEach_variables symbolName v xs")
  show ?case
  proof (cases r1)
    case (Inl e)
    with Cons.prems rec show ?thesis
      by (auto simp: setTo_def split: if_splits)
  next
    case (Inr ex1)
    with Cons.IH[of ex1 xs1] Cons.prems rec show ?thesis
      by (auto simp: setTo_def split: if_splits)
  qed
qed

lemma forEach_variables_fails:
  "distinct (map var_name vs) \<Longrightarrow> forEach_variables symbolName v vs = (Inl e, vs') \<Longrightarrow>
     vs' = vs \<and> e = CannotModify symbolName"
proof (induction vs arbitrary: vs')
  case Nil
  then show ?case by simp
next
  case (Cons x xs)
  show ?case
  proof (cases "var_name x = symbolName")
    case True
    with Cons.prems have "symbolName \<notin> var_name ` set xs" by auto
    then have "forEach_variables symbolName v xs = (Inr False, xs)"
      by (rule forEach_variables_no_match)
    with True Cons.prems show ?thesis
      by (auto simp: setTo_def split: if_splits)
  next
    case False
    obtain r1 xs1 where rec: "forEach_variables symbolName v xs = (r1, xs1)"
      by (cases "forEach_variables symbolName v xs")
    with False Cons.prems have "r1 = Inl e" "vs' = x # xs1" by auto
    with Cons.IH[of xs1] rec Cons.prems show ?thesis by auto
  qed
qed

lemma filter_filter_imp:
  "(\<And>x. P x \<Longrightarrow> Q x) \<Longrightarrow> filter P (filter Q xs) = filter P xs"
  by (induction xs) auto

text \<open>What \<open>getVariable\<close> reads of a table is decided by the variables of that name.\<close>

lemma getVariable_frame:
  assumes "filter (\<lambda>x. var_name x \<noteq> symbolName) (variables st')
           = filter (\<lambda>x. var_name x \<noteq> symbolName) (variables st)"
    and "ref \<noteq> NameText symbolName"
  shows "getVariable st' ref = getVariable st ref"
proof -
  have imp: "\<And>x. NameText (var_name x) = ref \<Longrightarrow> var_name x \<noteq> symbolName"
    using assms(2) by auto
  have "filter (\<lambda>x. NameText (var_name x) = ref) (variables st')
        = filter (\<lambda>x. NameText (var_name x) = ref) (filter (\<lambda>x. var_name x \<noteq> symbolName) (variables st'))"
    by (rule filter_filter_imp[symmetric]) (rule imp)
  also have "\<dots> = filter (\<lambda>x. NameText (var_name x) = ref) (filter (\<lambda>x. var_name x \<noteq> symbolName) (variables st))"
    by (simp only: assms(1))
  also have "\<dots> = filter (\<lambda>x. NameText (var_name x) = ref) (variables st)"
    by (rule filter_filter_imp) (rule imp)
  finally show ?thesis by (simp add: getVariable_def)
qed

lemma setSymbol_number_frame:
  "setSymbol symbolName (NumberValue v) st = (r, st') \<Longrightarrow>
     callables st' = callables st
     \<and> filter (\<lambda>x. var_name x \<noteq> symbolName) (variables st')
         = filter (\<lambda>x. var_name x \<noteq> symbolName) (variables st)"
proof -
  assume a: "setSymbol symbolName (NumberValue v) st = (r, st')"
  obtain r1 vs1 where fe: "forEach_variables symbolName v (variables st) = (r1, vs1)"
    by (cases "forEach_variables symbolName v (variables st)")
  from forEach_variables_frame[OF fe] a fe show ?thesis
    by (cases r1) (auto split: if_splits)
qed

lemma setSymbol_number_stored:
  assumes "setSymbol symbolName (NumberValue v) st = (None, st')"
  shows "\<exists>x. getVariable st' (NameText symbolName) = Inr x \<and> var_value x = v"
proof -
  obtain r1 vs1 where fe: "forEach_variables symbolName v (variables st) = (r1, vs1)"
    by (cases "forEach_variables symbolName v (variables st)")
  with assms obtain ex where r1: "r1 = Inr ex"
    by (cases r1) auto
  from forEach_variables_set[OF fe[unfolded r1]]
  have ex: "ex \<longleftrightarrow> symbolName \<in> var_name ` set (variables st)"
    and all: "list_all (\<lambda>x. var_value x = v) (filter (\<lambda>x. var_name x = symbolName) vs1)"
    by auto
  from forEach_variables_frame[OF fe] have names: "map var_name vs1 = map var_name (variables st)"
    by simp
  show ?thesis
  proof (cases ex)
    case True
    with ex names have "symbolName \<in> var_name ` set vs1"
      by (metis set_map)
    then have ne: "filter (\<lambda>x. var_name x = symbolName) vs1 \<noteq> []"
      by (auto simp: filter_empty_conv)
    then obtain y ys where f: "filter (\<lambda>x. var_name x = symbolName) vs1 = y # ys"
      by (cases "filter (\<lambda>x. var_name x = symbolName) vs1") auto
    with all have "var_value y = v" by simp
    moreover from assms fe r1 True have "variables st' = vs1" by auto
    ultimately show ?thesis using f
      by (simp add: getVariable_def)
  next
    case False
    with ex names have "symbolName \<notin> var_name ` set vs1"
      by (metis set_map)
    then have "filter (\<lambda>x. var_name x = symbolName) vs1 = []"
      by (auto simp: filter_empty_conv)
    moreover from assms fe r1 False
    have "variables st' = vs1 @ [\<lparr>var_name = symbolName, var_value = v, var_isFinal = False\<rparr>]"
      by auto
    ultimately show ?thesis
      by (simp add: getVariable_def)
  qed
qed

lemma setSymbol_number_fails:
  assumes "distinct (map var_name (variables st))"
    and "setSymbol symbolName (NumberValue v) st = (Some e, st')"
  shows "st' = st \<and> e = CannotModify symbolName"
proof -
  obtain r1 vs1 where fe: "forEach_variables symbolName v (variables st) = (r1, vs1)"
    by (cases "forEach_variables symbolName v (variables st)")
  with assms(2) have r1: "r1 = Inl e" and st': "st' = st\<lparr>variables := vs1\<rparr>"
    by (cases r1; auto split: if_splits)+
  from forEach_variables_fails[OF assms(1) fe[unfolded r1]] st' show ?thesis
    by simp
qed

text \<open>Two tables with the same callables and, the argument slot \<open>x\<close> apart, the same variables.\<close>

definition same_but_x :: "symbols_table \<Rightarrow> symbols_table \<Rightarrow> bool" where
  "same_but_x st st' \<longleftrightarrow>
     callables st' = callables st
     \<and> filter (\<lambda>v. var_name v \<noteq> ''x'') (variables st')
         = filter (\<lambda>v. var_name v \<noteq> ''x'') (variables st)"

lemma same_but_x_refl: "same_but_x st st"
  by (simp add: same_but_x_def)

lemma same_but_x_trans: "same_but_x st st1 \<Longrightarrow> same_but_x st1 st2 \<Longrightarrow> same_but_x st st2"
  by (simp add: same_but_x_def)

lemma setSymbol_x_frame:
  "setSymbol ''x'' (NumberValue v) st = (r, st') \<Longrightarrow> same_but_x st st'"
  using setSymbol_number_frame[of "''x''" v st r st'] by (simp add: same_but_x_def)

lemma forEach_callables_no_match:
  "symbolName \<notin> call_name ` set cs \<Longrightarrow> forEach_callables symbolName v cs = (Inr False, cs)"
  by (induction cs) auto

lemma forEach_callables_fails:
  "distinct (map call_name cs) \<Longrightarrow> forEach_callables symbolName v cs = (Inl e, cs') \<Longrightarrow>
     cs' = cs \<and> e = CannotModify symbolName"
proof (induction cs arbitrary: cs')
  case Nil
  then show ?case by simp
next
  case (Cons x xs)
  show ?case
  proof (cases "call_name x = symbolName")
    case True
    with Cons.prems have "symbolName \<notin> call_name ` set xs" by auto
    then have "forEach_callables symbolName v xs = (Inr False, xs)"
      by (rule forEach_callables_no_match)
    with True Cons.prems show ?thesis
      by (auto simp: setTo_callable_def split: if_splits)
  next
    case False
    obtain r1 xs1 where rec: "forEach_callables symbolName v xs = (r1, xs1)"
      by (cases "forEach_callables symbolName v xs")
    with False Cons.prems have "r1 = Inl e" "cs' = x # xs1" by auto
    with Cons.IH[of xs1] rec Cons.prems show ?thesis by auto
  qed
qed

lemma setSymbol_expression_fails:
  assumes "distinct (map call_name (callables st))"
    and "setSymbol symbolName (ExpressionValue v) st = (Some e, st')"
  shows "st' = st \<and> e = CannotModify symbolName"
proof -
  obtain r1 cs1 where fe: "forEach_callables symbolName v (callables st) = (r1, cs1)"
    by (cases "forEach_callables symbolName v (callables st)")
  with assms(2) have r1: "r1 = Inl e" and st': "st' = st\<lparr>callables := cs1\<rparr>"
    by (cases r1; auto split: if_splits)+
  from forEach_callables_fails[OF assms(1) fe[unfolded r1]] st' show ?thesis
    by simp
qed

lemma setSymbol_number_distinct:
  assumes "setSymbol symbolName (NumberValue v) st = (r, st')"
    and "distinct (map var_name (variables st))"
  shows "distinct (map var_name (variables st'))"
proof -
  obtain r1 vs1 where fe: "forEach_variables symbolName v (variables st) = (r1, vs1)"
    by (cases "forEach_variables symbolName v (variables st)")
  from forEach_variables_frame[OF fe] have names: "map var_name vs1 = map var_name (variables st)"
    by simp
  show ?thesis
  proof (cases r1)
    case (Inl e)
    with assms fe names show ?thesis by auto
  next
    case (Inr ex)
    from forEach_variables_set[OF fe[unfolded Inr]]
    have "ex \<longleftrightarrow> symbolName \<in> var_name ` set (variables st)" by simp
    with assms fe names Inr show ?thesis
      by (auto split: if_splits)
  qed
qed

text \<open>What every write of the argument slot keeps, an evaluation keeps.\<close>

lemma eval_invariant:
  assumes step: "\<And>v s r s'. P s \<Longrightarrow> setSymbol ''x'' (NumberValue v) s = (r, s') \<Longrightarrow> P s'"
  shows "eval n e st = Some (r, st') \<Longrightarrow> P st \<Longrightarrow> P st'"
proof (induction n e st arbitrary: r st' rule: eval.induct)
  case (1 n v st)
  then show ?case by simp
next
  case (2 n varName st)
  then show ?case by (auto split: sum.splits)
next
  case (3 n operand st)
  from "3.prems" obtain r1 where "eval n operand st = Some (r1, st')"
    by (auto split: option.splits sum.splits)
  then show ?case using "3.prems"(2) by (rule "3.IH")
next
  case (4 n operator left right st)
  from "4.prems" obtain r1 st1 where l: "eval n left st = Some (r1, st1)"
    by (auto split: option.splits)
  have p1: "P st1" by (rule "4.IH"(1)[OF l "4.prems"(2)])
  show ?case
  proof (cases r1)
    case (Inl e)
    with "4.prems" l have "st' = st1" by simp
    with p1 show ?thesis by simp
  next
    case (Inr leftVal)
    with "4.prems" l obtain r2 where r: "eval n right st1 = Some (r2, st')"
      by (auto split: option.splits sum.splits)
    show ?thesis
      by (rule "4.IH"(2)[OF l refl Inr r p1])
  qed
next
  case (5 n functionName argument st)
  from "5.prems" obtain r1 st1 where a: "eval n argument st = Some (r1, st1)"
    by (auto split: option.splits)
  have p1: "P st1" by (rule "5.IH"(1)[OF a "5.prems"(2)])
  show ?case
  proof (cases r1)
    case (Inl e)
    with "5.prems" a have "st' = st1" by simp
    with p1 show ?thesis by simp
  next
    case (Inr argValue)
    obtain r2 st2 where s: "setSymbol ''x'' (NumberValue argValue) st1 = (r2, st2)"
      by (cases "setSymbol ''x'' (NumberValue argValue) st1")
    have p2: "P st2" by (rule step[OF p1 s])
    show ?thesis
    proof (cases r2)
      case (Some e)
      with "5.prems" a Inr s have "st' = st2" by simp
      with p2 show ?thesis by simp
    next
      case None
      show ?thesis
      proof (cases "getCallable st2 functionName")
        case (Inl e)
        with "5.prems" a Inr s None have "st' = st2" by simp
        with p2 show ?thesis by simp
      next
        case c: (Inr c)
        with "5.prems" a Inr s None obtain m where n: "n = Suc m"
          and b: "eval m (call_expression c) st2 = Some (r, st')"
          by (cases n) auto
        show ?thesis
          by (rule "5.IH"(2)[OF a refl Inr s[symmetric] None c n b p2])
      qed
    qed
  qed
qed (auto simp: eval_builtin_def split: sum.splits)

text \<open>An evaluation changes no callable, and no variable but the argument slot \<open>x\<close>.\<close>

lemma eval_frame:
  "eval n e st = Some (r, st') \<Longrightarrow> same_but_x st st'"
  by (rule eval_invariant[where P = "same_but_x st"])
     (auto intro: same_but_x_refl same_but_x_trans setSymbol_x_frame simp del: setSymbol.simps)

lemma eval_distinct:
  "eval n e st = Some (r, st') \<Longrightarrow> distinct (map var_name (variables st)) \<Longrightarrow>
     distinct (map var_name (variables st'))"
  by (rule eval_invariant[where P = "\<lambda>s. distinct (map var_name (variables s))"])
     (auto dest: setSymbol_number_distinct simp del: setSymbol.simps)

lemma getVariable_same_but_x:
  "same_but_x st st' \<Longrightarrow> ref \<noteq> NameText ''x'' \<Longrightarrow> getVariable st' ref = getVariable st ref"
  by (rule getVariable_frame) (simp_all add: same_but_x_def)

lemma getVariable_after_setSymbol:
  "setSymbol symbolName (NumberValue v) st = (r, st') \<Longrightarrow> ref \<noteq> NameText symbolName \<Longrightarrow>
     getVariable st' ref = getVariable st ref"
  using setSymbol_number_frame[of symbolName v st r st'] by (auto intro: getVariable_frame)

lemma evalString_frame:
  "evalString n t st = Some (r, st') \<Longrightarrow> same_but_x st st'"
  by (auto simp: evalString_def Let_def same_but_x_refl
      split: sum.splits option.splits dest: eval_frame)

lemma evalString_distinct:
  "evalString n t st = Some (r, st') \<Longrightarrow> distinct (map var_name (variables st)) \<Longrightarrow>
     distinct (map var_name (variables st'))"
  by (auto simp: evalString_def Let_def split: sum.splits option.splits dest: eval_distinct)

lemma handleAssignment_fails:
  assumes dv: "distinct (map var_name (variables st))"
    and dc: "distinct (map call_name (callables st))"
    and fails: "handleAssignment n st left right = Some (Inl e, st')"
  shows "same_but_x st st'"
proof (cases "funcRegExp left")
  case True
  show ?thesis
  proof (cases "getExpression n st right")
    case None
    with True fails show ?thesis by (simp add: handleAssignment_def Let_def)
  next
    case (Some g)
    show ?thesis
    proof (cases g)
      case (Inl e1)
      with True fails Some have "st' = st" by (simp add: handleAssignment_def Let_def)
      then show ?thesis by (simp add: same_but_x_refl)
    next
      case (Inr parsed)
      with True fails Some obtain name where
        "setSymbol name (ExpressionValue parsed) st = (Some e, st')"
        by (auto simp: handleAssignment_def Let_def simp del: setSymbol.simps
            split: prod.splits option.splits)
      from setSymbol_expression_fails[OF dc this] show ?thesis
        by (simp add: same_but_x_refl)
    qed
  qed
next
  case False
  show ?thesis
  proof (cases "varNameRegExp left")
    case v: True
    from False v fails obtain r1 st1 where ev: "evalString n right st = Some (r1, st1)"
      by (auto simp: handleAssignment_def split: option.splits)
    have f1: "same_but_x st st1" by (rule evalString_frame[OF ev])
    show ?thesis
    proof (cases r1)
      case (Inl e1)
      with False v fails ev have "st' = st1" by (simp add: handleAssignment_def)
      with f1 show ?thesis by simp
    next
      case (Inr num)
      with False v fails ev have s: "setSymbol left (NumberValue num) st1 = (Some e, st')"
        by (auto simp: handleAssignment_def simp del: setSymbol.simps
            split: prod.splits option.splits)
      from setSymbol_number_fails[OF evalString_distinct[OF ev dv] s] f1 show ?thesis
        by simp
    qed
  next
    case v: False
    with False fails have "st' = st" by (simp add: handleAssignment_def)
    then show ?thesis by (simp add: same_but_x_refl)
  qed
qed

subsection \<open>Running a query again\<close>

text \<open>No variable of the name is final: the condition for \<^verbatim>\<open>setSymbol\<close> not to throw.\<close>

definition no_final :: "string \<Rightarrow> symbols_table \<Rightarrow> bool" where
  "no_final symbolName st \<longleftrightarrow>
     list_all (\<lambda>x. \<not> (var_name x = symbolName \<and> var_isFinal x)) (variables st)"

lemma forEach_variables_ok_iff:
  "\<not> isl (fst (forEach_variables symbolName v vs))
     \<longleftrightarrow> list_all (\<lambda>x. \<not> (var_name x = symbolName \<and> var_isFinal x)) vs"
proof (induction vs)
  case Nil
  then show ?case by simp
next
  case (Cons x xs)
  obtain r1 xs1 where rec: "forEach_variables symbolName v xs = (r1, xs1)"
    by (cases "forEach_variables symbolName v xs")
  with Cons.IH show ?case
    by (cases r1) (auto simp: setTo_def)
qed

lemma forEach_variables_finals:
  "forEach_variables symbolName v vs = (r, vs') \<Longrightarrow>
     list_all (\<lambda>x. \<not> (var_name x = m \<and> var_isFinal x)) vs'
       = list_all (\<lambda>x. \<not> (var_name x = m \<and> var_isFinal x)) vs"
proof (induction vs arbitrary: r vs')
  case Nil
  then show ?case by simp
next
  case (Cons x xs)
  obtain r1 xs1 where rec: "forEach_variables symbolName v xs = (r1, xs1)"
    by (cases "forEach_variables symbolName v xs")
  from Cons.IH[OF rec] Cons.prems rec show ?case
    by (auto simp: setTo_def split: if_splits sum.splits)
qed

lemma setSymbol_number_ok_iff:
  "fst (setSymbol symbolName (NumberValue v) st) = None \<longleftrightarrow> no_final symbolName st"
proof -
  obtain r1 vs1 where fe: "forEach_variables symbolName v (variables st) = (r1, vs1)"
    by (cases "forEach_variables symbolName v (variables st)")
  with forEach_variables_ok_iff[of symbolName v "variables st"] show ?thesis
    by (cases r1) (auto simp: no_final_def)
qed

lemma setSymbol_number_no_final:
  assumes "setSymbol symbolName (NumberValue v) st = (None, st')" and "no_final m st"
  shows "no_final m st'"
proof -
  obtain r1 vs1 where fe: "forEach_variables symbolName v (variables st) = (r1, vs1)"
    by (cases "forEach_variables symbolName v (variables st)")
  from assms(1) fe obtain ex where "r1 = Inr ex" by (cases r1) auto
  with assms fe forEach_variables_finals[OF fe, of m] show ?thesis
    by (auto simp: no_final_def split: if_splits)
qed

lemma evalString_getExpression:
  "evalString n t st =
     (case getExpression n st t of
        None \<Rightarrow> None
      | Some (Inl e) \<Rightarrow> Some (Inl e, st)
      | Some (Inr parsed) \<Rightarrow> eval n parsed st)"
  by (simp add: evalString_def getExpression_def Let_def split: sum.splits option.splits)

lemma getExpression_callables:
  "callables st' = callables st \<Longrightarrow> getExpression n st' t = getExpression n st t"
  by (simp add: getExpression_def)

lemma run_plain:
  "CHR ''='' \<notin> set t \<Longrightarrow> evalString n t st = Some (Inr r, st1) \<Longrightarrow>
   getVariable st1 (NameText ''ans'') = Inr a \<Longrightarrow>
   setSymbol ''preans'' (NumberValue (var_value a)) st1 = (None, st2) \<Longrightarrow>
   setSymbol ''ans'' (NumberValue r) st2 = (None, st3) \<Longrightarrow>
   run n st t = Some (Inr r, st3)"
  by (simp add: run_def del: setSymbol.simps)

subsection \<open>Splitting an assignment\<close>

text \<open>
  Follows the spec's words: "split on the first occurrence into left/right", the left part
  before the first occurrence and the right part after it.
\<close>

definition split_first :: "char \<Rightarrow> string \<Rightarrow> string \<times> string" where
  "split_first c s = (takeWhile (\<lambda>d. d \<noteq> c) s, drop 1 (dropWhile (\<lambda>d. d \<noteq> c) s))"

text \<open>The assignment branch of \<^verbatim>\<open>run\<close> with the split of the spec's words.\<close>

definition run_split_first :: "nat \<Rightarrow> symbols_table \<Rightarrow> string \<Rightarrow> ((error + real) \<times> symbols_table) option" where
  "run_split_first n st t =
     (case split_first CHR ''='' t of (l, r) \<Rightarrow> handleAssignment n st (trim l) (trim r))"

lemma split_decomp:
  "split c s = takeWhile (\<lambda>d. d \<noteq> c) s
                # (if c \<in> set s then split c (drop 1 (dropWhile (\<lambda>d. d \<noteq> c) s)) else [])"
  by (induction s) (auto split: list.splits)

lemma split_two:
  assumes "c \<in> set s"
  shows "\<exists>rest. split c s = takeWhile (\<lambda>d. d \<noteq> c) s
                  # takeWhile (\<lambda>d. d \<noteq> c) (drop 1 (dropWhile (\<lambda>d. d \<noteq> c) s)) # rest"
proof -
  from assms have "split c s = takeWhile (\<lambda>d. d \<noteq> c) s
                     # split c (drop 1 (dropWhile (\<lambda>d. d \<noteq> c) s))"
    by (subst split_decomp) simp
  then show ?thesis
    by (subst (asm) (2) split_decomp) auto
qed

lemma single_occurrence:
  assumes "length (filter (\<lambda>d. d = c) s) = 1"
  shows "c \<in> set s \<and> takeWhile (\<lambda>d. d \<noteq> c) (drop 1 (dropWhile (\<lambda>d. d \<noteq> c) s))
                        = drop 1 (dropWhile (\<lambda>d. d \<noteq> c) s)"
proof -
  from assms have "filter (\<lambda>d. d = c) s \<noteq> []" by auto
  then have m: "c \<in> set s" by (auto simp: filter_empty_conv)
  then obtain rem where dw: "dropWhile (\<lambda>d. d \<noteq> c) s = c # rem"
    by (metis (mono_tags, lifting) dropWhile_eq_Nil_conv hd_dropWhile list.collapse)
  have "filter (\<lambda>d. d = c) s = filter (\<lambda>d. d = c) (takeWhile (\<lambda>d. d \<noteq> c) s @ dropWhile (\<lambda>d. d \<noteq> c) s)"
    by simp
  also have "\<dots> = filter (\<lambda>d. d = c) (dropWhile (\<lambda>d. d \<noteq> c) s)"
    by (simp only: filter_append) (auto simp: filter_empty_conv dest: set_takeWhileD)
  finally have "filter (\<lambda>d. d = c) s = c # filter (\<lambda>d. d = c) rem"
    by (simp add: dw)
  with assms have "filter (\<lambda>d. d = c) rem = []" by simp
  then have "\<forall>d \<in> set rem. d \<noteq> c" by (auto simp: filter_empty_conv)
  then have "takeWhile (\<lambda>d. d \<noteq> c) rem = rem" by (simp add: takeWhile_eq_all_conv)
  with m dw show ?thesis by simp
qed

lemma forEach_callables_set:
  "forEach_callables symbolName v cs = (Inr ex, cs') \<Longrightarrow>
     (ex \<longleftrightarrow> symbolName \<in> call_name ` set cs)
     \<and> map call_name cs' = map call_name cs
     \<and> list_all (\<lambda>x. call_expression x = v) (filter (\<lambda>x. call_name x = symbolName) cs')"
proof (induction cs arbitrary: ex cs')
  case Nil
  then show ?case by simp
next
  case (Cons x xs)
  obtain r1 xs1 where rec: "forEach_callables symbolName v xs = (r1, xs1)"
    by (cases "forEach_callables symbolName v xs")
  show ?case
  proof (cases r1)
    case (Inl e)
    with Cons.prems rec show ?thesis
      by (auto simp: setTo_callable_def split: if_splits)
  next
    case (Inr ex1)
    with Cons.IH[of ex1 xs1] Cons.prems rec show ?thesis
      by (auto simp: setTo_callable_def split: if_splits)
  qed
qed

lemma setSymbol_expression_stored:
  assumes "setSymbol symbolName (ExpressionValue v) st = (None, st')"
  shows "\<exists>c. getCallable st' symbolName = Inr c \<and> call_expression c = v"
proof -
  obtain r1 cs1 where fe: "forEach_callables symbolName v (callables st) = (r1, cs1)"
    by (cases "forEach_callables symbolName v (callables st)")
  with assms obtain ex where r1: "r1 = Inr ex"
    by (cases r1) auto
  from forEach_callables_set[OF fe[unfolded r1]]
  have ex: "ex \<longleftrightarrow> symbolName \<in> call_name ` set (callables st)"
    and names: "map call_name cs1 = map call_name (callables st)"
    and all: "list_all (\<lambda>x. call_expression x = v) (filter (\<lambda>x. call_name x = symbolName) cs1)"
    by auto
  show ?thesis
  proof (cases ex)
    case True
    with ex names have "symbolName \<in> call_name ` set cs1"
      by (metis set_map)
    then have ne: "filter (\<lambda>x. call_name x = symbolName) cs1 \<noteq> []"
      by (auto simp: filter_empty_conv)
    then obtain y ys where f: "filter (\<lambda>x. call_name x = symbolName) cs1 = y # ys"
      by (cases "filter (\<lambda>x. call_name x = symbolName) cs1") auto
    with all have "call_expression y = v" by simp
    moreover from assms fe r1 True have "callables st' = cs1" by auto
    ultimately show ?thesis using f
      by (simp add: getCallable_def)
  next
    case False
    with ex names have "symbolName \<notin> call_name ` set cs1"
      by (metis set_map)
    then have "filter (\<lambda>x. call_name x = symbolName) cs1 = []"
      by (auto simp: filter_empty_conv)
    moreover from assms fe r1 False
    have "callables st' = cs1 @ [\<lparr>call_name = symbolName, call_expression = v, call_isFinal = False\<rparr>]"
      by auto
    ultimately show ?thesis
      by (simp add: getCallable_def)
  qed
qed

lemma funcRegExp_name:
  assumes "funcRegExp left"
  shows "(case split CHR ''('' left of u # _ \<Rightarrow> u | [] \<Rightarrow> []) = takeWhile is_lower left"
proof -
  from assms have l: "left = takeWhile is_lower left @ ''(x)''"
    by (metis funcRegExp_def takeWhile_dropWhile_id)
  have "\<forall>d \<in> set (takeWhile is_lower left). d \<noteq> CHR ''(''"
    by (auto dest!: set_takeWhileD simp: is_lower_def)
  then have "takeWhile (\<lambda>d. d \<noteq> CHR ''('') (takeWhile is_lower left @ ''(x)'') = takeWhile is_lower left"
    by (simp add: takeWhile_append2)
  with l have "takeWhile (\<lambda>d. d \<noteq> CHR ''('') left = takeWhile is_lower left"
    by simp
  then show ?thesis
    by (subst split_decomp) simp
qed

subsection \<open>The bound on the depth of the calls\<close>

text \<open>Every call that returns under the methods \<open>a\<close> returns the same under the methods \<open>b\<close>.\<close>

definition methods_le :: "parser_methods \<Rightarrow> parser_methods \<Rightarrow> bool" where
  "methods_le a b \<longleftrightarrow>
     (\<forall>i ts r. this_parse a i ts = Some r \<longrightarrow> this_parse b i ts = Some r)
     \<and> (\<forall>l i ts r. this_continueParsing a l i ts = Some r \<longrightarrow> this_continueParsing b l i ts = Some r)
     \<and> (\<forall>i ts r. this_nextAsRightOperand a i ts = Some r \<longrightarrow> this_nextAsRightOperand b i ts = Some r)
     \<and> (\<forall>i ts r. this_parseBrackets a i ts = Some r \<longrightarrow> this_parseBrackets b i ts = Some r)
     \<and> (\<forall>i ts r. this_parseFunctionCall a i ts = Some r \<longrightarrow> this_parseFunctionCall b i ts = Some r)"

lemma parse_body_mono:
  assumes "methods_le a b" and "parse_body a i ts = Some r"
  shows "parse_body b i ts = Some r"
proof -
  from assms(1) have
    c: "\<And>l i ts r. this_continueParsing a l i ts = Some r \<Longrightarrow> this_continueParsing b l i ts = Some r"
    and o: "\<And>i ts r. this_nextAsRightOperand a i ts = Some r \<Longrightarrow> this_nextAsRightOperand b i ts = Some r"
    and k: "\<And>i ts r. this_parseBrackets a i ts = Some r \<Longrightarrow> this_parseBrackets b i ts = Some r"
    and f: "\<And>i ts r. this_parseFunctionCall a i ts = Some r \<Longrightarrow> this_parseFunctionCall b i ts = Some r"
    by (simp_all add: methods_le_def)
  from assms(2) show ?thesis
    unfolding parse_body_def Let_def
    by (auto split: if_splits option.splits sum.splits dest!: c o k f)
qed

lemma continueParsing_body_mono:
  assumes "methods_le a b" and "continueParsing_body a l i ts = Some r"
  shows "continueParsing_body b l i ts = Some r"
proof -
  from assms(1) have
    p: "\<And>i ts r. this_parse a i ts = Some r \<Longrightarrow> this_parse b i ts = Some r"
    and c: "\<And>l i ts r. this_continueParsing a l i ts = Some r \<Longrightarrow> this_continueParsing b l i ts = Some r"
    and o: "\<And>i ts r. this_nextAsRightOperand a i ts = Some r \<Longrightarrow> this_nextAsRightOperand b i ts = Some r"
    by (simp_all add: methods_le_def)
  from assms(2) show ?thesis
    unfolding continueParsing_body_def Let_def
    by (auto split: if_splits option.splits sum.splits dest!: p c o)
qed

lemma nextAsRightOperand_body_mono:
  assumes "methods_le a b" and "nextAsRightOperand_body a i ts = Some r"
  shows "nextAsRightOperand_body b i ts = Some r"
proof -
  from assms(1) have
    o: "\<And>i ts r. this_nextAsRightOperand a i ts = Some r \<Longrightarrow> this_nextAsRightOperand b i ts = Some r"
    and k: "\<And>i ts r. this_parseBrackets a i ts = Some r \<Longrightarrow> this_parseBrackets b i ts = Some r"
    and f: "\<And>i ts r. this_parseFunctionCall a i ts = Some r \<Longrightarrow> this_parseFunctionCall b i ts = Some r"
    by (simp_all add: methods_le_def)
  from assms(2) show ?thesis
    unfolding nextAsRightOperand_body_def Let_def
    by (auto split: if_splits option.splits sum.splits dest!: o k f)
qed

lemma parseBrackets_body_mono:
  assumes "methods_le a b" and "parseBrackets_body a i ts = Some r"
  shows "parseBrackets_body b i ts = Some r"
proof -
  from assms(1) have
    p: "\<And>i ts r. this_parse a i ts = Some r \<Longrightarrow> this_parse b i ts = Some r"
    by (simp add: methods_le_def)
  from assms(2) show ?thesis
    unfolding parseBrackets_body_def
    by (auto split: if_splits option.splits sum.splits dest!: p)
qed

lemma parseFunctionCall_body_mono:
  assumes "methods_le a b" and "parseFunctionCall_body a i ts = Some r"
  shows "parseFunctionCall_body b i ts = Some r"
proof -
  from assms(1) have
    k: "\<And>i ts r. this_parseBrackets a i ts = Some r \<Longrightarrow> this_parseBrackets b i ts = Some r"
    by (simp add: methods_le_def)
  from assms(2) show ?thesis
    unfolding parseFunctionCall_body_def
    by (auto split: if_splits option.splits sum.splits dest!: k)
qed

lemma Parser_step: "methods_le (Parser n) (Parser (Suc n))"
proof (induction n)
  case 0
  show ?case by (simp add: methods_le_def)
next
  case (Suc n)
  show ?case
    unfolding methods_le_def
    using parse_body_mono[OF Suc] continueParsing_body_mono[OF Suc]
      nextAsRightOperand_body_mono[OF Suc] parseBrackets_body_mono[OF Suc]
      parseFunctionCall_body_mono[OF Suc]
    by simp
qed

lemma methods_le_trans: "methods_le a b \<Longrightarrow> methods_le b c \<Longrightarrow> methods_le a c"
  by (simp add: methods_le_def)

lemma Parser_mono: "n \<le> m \<Longrightarrow> methods_le (Parser n) (Parser m)"
proof (induction m)
  case 0
  then show ?case by (simp add: methods_le_def)
next
  case (Suc m)
  show ?case
  proof (cases "n = Suc m")
    case True
    then show ?thesis by (simp add: methods_le_def)
  next
    case False
    with Suc.prems have "n \<le> m" by simp
    then have "methods_le (Parser n) (Parser m)" by (rule Suc.IH)
    then show ?thesis using Parser_step by (rule methods_le_trans)
  qed
qed

text \<open>A larger bound on the depth of the calls changes no result of the parser.\<close>

lemma parse_mono: "parse n i ts = Some r \<Longrightarrow> n \<le> m \<Longrightarrow> parse m i ts = Some r"
  using Parser_mono[of n m] by (simp add: parse_def methods_le_def)

text \<open>A larger bound does not change the result of \<^verbatim>\<open>factorialise\<close>.\<close>

lemma factorialise_on_mono:
  "factorialise_on ops n v = Some r \<Longrightarrow> n \<le> m \<Longrightarrow> factorialise_on ops m v = Some r"
proof (induction n arbitrary: v r m)
  case 0
  then show ?case by simp
next
  case (Suc n)
  from Suc.prems(2) obtain m' where m: "m = Suc m'" and le: "n \<le> m'"
    by (cases m) auto
  show ?case
  proof (cases "lt_zero ops v \<or> eq_zero ops v")
    case True
    with Suc.prems(1) m show ?thesis by auto
  next
    case False
    with Suc.prems(1) obtain r' where r': "factorialise_on ops n (sub_one ops v) = Some r'"
      by (auto split: option.splits)
    from Suc.IH[OF r' le] Suc.prems(1) r' False m show ?thesis by auto
  qed
qed

text \<open>Nor of an evaluation.\<close>

lemma eval_mono: "eval n e st = Some r \<Longrightarrow> n \<le> m \<Longrightarrow> eval m e st = Some r"
proof (induction n e st arbitrary: r m rule: eval.induct)
  case (3 n operand st)
  from "3.prems" obtain r1 where o: "eval n operand st = Some r1"
    by (auto split: option.splits)
  then have o': "eval m operand st = Some r1" using "3.prems"(2) by (rule "3.IH")
  obtain r0 st1 where r1: "r1 = (r0, st1)" by (cases r1)
  show ?case
  proof (cases r0)
    case (Inl e)
    with "3.prems"(1) o r1 have "r = (Inl e, st1)" by simp
    with o' r1 Inl show ?thesis by simp
  next
    case (Inr v)
    with "3.prems"(1) o r1 obtain w where w: "factorialise_on real_numbers n v = Some w"
      and r: "r = (Inr w, st1)"
      by (auto split: option.splits)
    from w "3.prems"(2) have "factorialise_on real_numbers m v = Some w"
      by (rule factorialise_on_mono)
    with o' r1 Inr r show ?thesis by simp
  qed
next
  case (4 n operator left right st)
  from "4.prems" obtain r1 st1 where l: "eval n left st = Some (r1, st1)"
    by (auto split: option.splits)
  then have l': "eval m left st = Some (r1, st1)" using "4.prems"(2) by (rule "4.IH"(1))
  show ?case
  proof (cases r1)
    case (Inl e)
    with "4.prems"(1) l have "r = (Inl e, st1)" by simp
    with l' Inl show ?thesis by simp
  next
    case (Inr leftVal)
    with "4.prems" l obtain r2 where r: "eval n right st1 = Some r2"
      by (auto split: option.splits)
    have "eval m right st1 = Some r2"
      by (rule "4.IH"(2)[OF l refl Inr r "4.prems"(2)])
    moreover from "4.prems"(1) l Inr r
    have "r = (case r2 of (Inl e, st2) \<Rightarrow> (Inl e, st2)
                        | (Inr rightVal, st2) \<Rightarrow> (apply_operator operator leftVal rightVal, st2))"
      by (auto split: sum.splits prod.splits)
    ultimately show ?thesis using l' Inr
      by (auto split: sum.splits prod.splits)
  qed
next
  case (5 n functionName argument st)
  from "5.prems" obtain r1 st1 where a: "eval n argument st = Some (r1, st1)"
    by (auto split: option.splits)
  then have a': "eval m argument st = Some (r1, st1)" using "5.prems"(2) by (rule "5.IH"(1))
  show ?case
  proof (cases r1)
    case (Inl e)
    with "5.prems"(1) a have "r = (Inl e, st1)" by simp
    with a' Inl show ?thesis by simp
  next
    case (Inr argValue)
    obtain r2 st2 where s: "setSymbol ''x'' (NumberValue argValue) st1 = (r2, st2)"
      by (cases "setSymbol ''x'' (NumberValue argValue) st1")
    show ?thesis
    proof (cases r2)
      case (Some e)
      with "5.prems"(1) a Inr s have "r = (Inl e, st2)" by (simp del: setSymbol.simps)
      with a' Inr s Some show ?thesis by (simp del: setSymbol.simps)
    next
      case None
      show ?thesis
      proof (cases "getCallable st2 functionName")
        case (Inl e)
        with "5.prems"(1) a Inr s None have "r = (Inl e, st2)" by (simp del: setSymbol.simps)
        with a' Inr s None Inl show ?thesis by (simp del: setSymbol.simps)
      next
        case c: (Inr c)
        with "5.prems" a Inr s None obtain n' where n: "n = Suc n'"
          and b: "eval n' (call_expression c) st2 = Some r"
          by (cases n) (auto simp del: setSymbol.simps)
        from n "5.prems"(2) obtain m' where m: "m = Suc m'" and le: "n' \<le> m'"
          by (cases m) auto
        have "eval m' (call_expression c) st2 = Some r"
          by (rule "5.IH"(2)[OF a refl Inr s[symmetric] None c n b le])
        with a' Inr s None c m show ?thesis by (simp del: setSymbol.simps)
      qed
    qed
  qed
qed simp_all

lemma getExpression_mono:
  assumes a: "getExpression n st t = Some r" and le: "n \<le> m"
  shows "getExpression m st t = Some r"
proof (cases "tokenise t (map call_name (callables st))")
  case (Inl e)
  with a show ?thesis by (simp add: getExpression_def)
next
  case (Inr tokens)
  with a obtain x where p: "parse n 0 tokens = Some x"
    by (auto simp: getExpression_def split: option.splits)
  from parse_mono[OF p le] a Inr p show ?thesis
    by (simp add: getExpression_def)
qed

lemma evalString_mono:
  assumes a: "evalString n t st = Some r" and le: "n \<le> m"
  shows "evalString m t st = Some r"
proof (cases "getExpression n st t")
  case None
  with a show ?thesis by (simp add: evalString_getExpression)
next
  case (Some g)
  then have g: "getExpression m st t = Some g" using le by (rule getExpression_mono)
  show ?thesis
  proof (cases g)
    case (Inl e)
    with a Some g show ?thesis by (simp add: evalString_getExpression)
  next
    case (Inr parsed)
    with a Some have "eval n parsed st = Some r" by (simp add: evalString_getExpression)
    then have "eval m parsed st = Some r" using le by (rule eval_mono)
    with g Inr show ?thesis by (simp add: evalString_getExpression)
  qed
qed

lemma handleAssignment_mono:
  assumes a: "handleAssignment n st left right = Some r" and le: "n \<le> m"
  shows "handleAssignment m st left right = Some r"
proof (cases "funcRegExp left")
  case True
  with a obtain g where g: "getExpression n st right = Some g"
    by (auto simp: handleAssignment_def Let_def split: option.splits)
  from getExpression_mono[OF g le] a g True show ?thesis
    by (simp add: handleAssignment_def Let_def del: setSymbol.simps)
next
  case False
  show ?thesis
  proof (cases "varNameRegExp left")
    case True
    with a False obtain g where g: "evalString n right st = Some g"
      by (auto simp: handleAssignment_def split: option.splits)
    from evalString_mono[OF g le] a g True False show ?thesis
      by (simp add: handleAssignment_def del: setSymbol.simps)
  next
    case v: False
    with a False show ?thesis by (simp add: handleAssignment_def)
  qed
qed

text \<open>Nor of a call of \<^verbatim>\<open>run\<close>: what it returns or throws does not depend on the bound.\<close>

lemma run_mono:
  assumes a: "run n st t = Some r" and le: "n \<le> m"
  shows "run m st t = Some r"
proof (cases "CHR ''='' \<in> set t")
  case True
  show ?thesis
  proof (cases "split CHR ''='' t")
    case Nil
    with a True show ?thesis by (simp add: run_def)
  next
    case (Cons l rest)
    show ?thesis
    proof (cases rest)
      case Nil
      with a True Cons show ?thesis by (simp add: run_def)
    next
      case c2: (Cons r2 rest2)
      with a True Cons have "handleAssignment n st (trim l) (trim r2) = Some r"
        by (simp add: run_def)
      then have "handleAssignment m st (trim l) (trim r2) = Some r"
        using le by (rule handleAssignment_mono)
      with True Cons c2 show ?thesis by (simp add: run_def)
    qed
  qed
next
  case False
  with a obtain g where g: "evalString n t st = Some g"
    by (auto simp: run_def split: option.splits)
  from evalString_mono[OF g le] a g False show ?thesis
    by (simp add: run_def del: setSymbol.simps)
qed

lemma runs_mono: "runs n st qs = Some r \<Longrightarrow> n \<le> m \<Longrightarrow> runs m st qs = Some r"
proof (induction qs arbitrary: st r)
  case Nil
  then show ?case by simp
next
  case (Cons q qs)
  from Cons.prems obtain r1 st1 where r1: "run n st q = Some (r1, st1)"
    by (auto split: option.splits)
  with Cons.prems obtain r2 where r2: "runs n st1 qs = Some r2"
    by (auto split: option.splits)
  from run_mono[OF r1 Cons.prems(2)] Cons.IH[OF r2 Cons.prems(2)] Cons.prems(1) r1 r2
  show ?case by simp
qed

text \<open>So two bounds under which a call returns give the same outcome and the same table.\<close>

lemma run_bound_irrelevant:
  assumes "run k st t = Some r"
  shows "run n st t = None \<or> run n st t = Some r"
proof (cases "k \<le> n")
  case True
  from run_mono[OF assms True] show ?thesis by simp
next
  case False
  then have le: "n \<le> k" by simp
  show ?thesis
  proof (cases "run n st t")
    case None
    then show ?thesis by simp
  next
    case (Some r')
    from run_mono[OF Some le] assms Some show ?thesis by simp
  qed
qed

subsection \<open>The recursion of factorialise\<close>

text \<open>A recursive call is made only from an argument that met neither test.\<close>

lemma factorialise_calls_on_guards:
  "list_all (\<lambda>a. \<not> lt_zero ops a \<and> \<not> eq_zero ops a) (butlast (factorialise_calls_on ops n v))"
proof (induction n arbitrary: v)
  case 0
  show ?case by simp
next
  case (Suc n)
  show ?case
  proof (cases "lt_zero ops v \<or> eq_zero ops v")
    case True
    then show ?thesis by auto
  next
    case False
    with Suc[of "sub_one ops v"] show ?thesis by auto
  qed
qed

text \<open>The first call is of the operand, within any bound but zero.\<close>

lemma factorialise_calls_on_hd:
  "factorialise_calls_on ops n v \<noteq> [] \<Longrightarrow> hd (factorialise_calls_on ops n v) = v"
  by (cases n) auto

text \<open>Every other call is of the argument before it, less one.\<close>

lemma factorialise_calls_on_chain:
  "tl (factorialise_calls_on ops n v) = map (sub_one ops) (butlast (factorialise_calls_on ops n v))"
proof (induction n arbitrary: v)
  case 0
  show ?case by simp
next
  case (Suc n)
  show ?case
  proof (cases "lt_zero ops v \<or> eq_zero ops v")
    case True
    then show ?thesis by auto
  next
    case False
    show ?thesis
    proof (cases "factorialise_calls_on ops n (sub_one ops v) = []")
      case True
      with False show ?thesis by auto
    next
      case ne: False
      then have "factorialise_calls_on ops n (sub_one ops v)
                 = sub_one ops v # tl (factorialise_calls_on ops n (sub_one ops v))"
        using factorialise_calls_on_hd[of ops n "sub_one ops v"] by (metis list.collapse)
      also have "\<dots> = sub_one ops v
                   # map (sub_one ops) (butlast (factorialise_calls_on ops n (sub_one ops v)))"
        by (simp only: Suc)
      finally show ?thesis using False ne by auto
    qed
  qed
qed

text \<open>The method returns exactly when the last call within the bound meets a test.\<close>

lemma factorialise_on_returns:
  "(factorialise_on ops n v \<noteq> None)
     = (factorialise_calls_on ops n v \<noteq> []
        \<and> (lt_zero ops (last (factorialise_calls_on ops n v))
           \<or> eq_zero ops (last (factorialise_calls_on ops n v))))"
proof (induction n arbitrary: v)
  case 0
  show ?case by simp
next
  case (Suc n)
  show ?case
  proof (cases "lt_zero ops v \<or> eq_zero ops v")
    case True
    then show ?thesis by auto
  next
    case False
    with Suc[of "sub_one ops v"] show ?thesis
      by (auto split: option.splits)
  qed
qed

text \<open>On the reals no argument is below both the operand and \<open>-1\<close>.\<close>

lemma factorialise_calls_on_real_bound:
  "list_all (\<lambda>a. min v (- 1) \<le> a) (factorialise_calls_on real_numbers n v)"
proof (induction n arbitrary: v)
  case 0
  show ?case by simp
next
  case (Suc n)
  show ?case
  proof (cases "v < 0 \<or> v = 0")
    case True
    then show ?thesis by (auto simp: real_numbers_def)
  next
    case False
    then have m: "min (v - 1) (- 1) = min v (- 1)" by auto
    from Suc[of "v - 1"] have "list_all (\<lambda>a. min v (- 1) \<le> a) (factorialise_calls_on real_numbers n (v - 1))"
      by (simp only: m)
    with False show ?thesis by (simp add: real_numbers_def)
  qed
qed

text \<open>On the reals an operand that is not an integer is followed by no integer, so never by zero.\<close>

lemma factorialise_calls_on_real_fractional:
  "v \<notin> \<int> \<Longrightarrow> list_all (\<lambda>a. a \<notin> \<int>) (factorialise_calls_on real_numbers n v)"
proof (induction n arbitrary: v)
  case 0
  show ?case by simp
next
  case (Suc n)
  from Suc.prems have "v - 1 \<notin> \<int>"
    by (metis Ints_1 Ints_add diff_add_cancel)
  then have "list_all (\<lambda>a. a \<notin> \<int>) (factorialise_calls_on real_numbers n (v - 1))"
    by (rule Suc.IH)
  with Suc.prems show ?case by (simp add: real_numbers_def)
qed

text \<open>
  On the reals an operand \<open>v\<close> that is not negative needs the depth of \<open>\<lceil>v\<rceil> + 1\<close> calls, no less
  and no more.
\<close>

lemma factorialise_on_real_depth:
  "0 \<le> v \<Longrightarrow> (factorialise_on real_numbers n v \<noteq> None) = (nat \<lceil>v\<rceil> < n)"
proof (induction n arbitrary: v)
  case 0
  show ?case by simp
next
  case (Suc n)
  show ?case
  proof (cases "v = 0")
    case True
    then show ?thesis by (simp add: real_numbers_def)
  next
    case False
    with Suc.prems have pos: "0 < v" by simp
    then have c: "0 < \<lceil>v\<rceil>" by linarith
    have d: "\<lceil>v - 1\<rceil> = \<lceil>v\<rceil> - 1" by linarith
    show ?thesis
    proof (cases "v < 1")
      case True
      with pos have "\<lceil>v\<rceil> = 1" by linarith
      moreover from True have "factorialise_on real_numbers n (v - 1) = (if n = 0 then None else Some (- 1))"
        by (cases n) (simp_all add: real_numbers_def)
      ultimately show ?thesis using pos by (auto simp: real_numbers_def)
    next
      case ge: False
      then have "0 \<le> v - 1" by simp
      then have "(factorialise_on real_numbers n (v - 1) \<noteq> None) = (nat \<lceil>v - 1\<rceil> < n)"
        by (rule Suc.IH)
      moreover from c d have "(nat \<lceil>v - 1\<rceil> < n) = (nat \<lceil>v\<rceil> < Suc n)" by linarith
      ultimately show ?thesis using pos
        by (auto simp: real_numbers_def split: option.splits)
    qed
  qed
qed

text \<open>On \<^verbatim>\<open>NaN\<close> no test ever holds: every call is of \<^verbatim>\<open>NaN\<close>, and no bound is enough.\<close>

lemma factorialise_on_NaN:
  "factorialise_on js_numbers n NaN = None
   \<and> factorialise_calls_on js_numbers n NaN = replicate n NaN"
  by (induction n) (simp_all add: js_numbers_def)

lemma half_not_int: "(1 / 2 :: real) \<notin> \<int>"
proof
  assume "(1 / 2 :: real) \<in> \<int>"
  then have "frac (1 / 2 :: real) = 0" by (simp add: frac_eq_0_iff)
  then show False by (simp add: frac_def)
qed

section \<open>The claims\<close>

subsection \<open>C1: precedence and associativity\<close>

text \<open>
  C1, as the code has it: on a fresh engine \<^verbatim>\<open>run("2+3*4")\<close> returns 14 and
  \<^verbatim>\<open>run("(2+3)*4")\<close> returns 20; \<^verbatim>\<open>2^3^2\<close> is parsed with the right-hand power first, as
  \<^verbatim>\<open>2^(3^2)\<close> (an operator of the same precedence as the next one takes the whole rest as
  its right operand), and \<^verbatim>\<open>run("2^3^2")\<close> returns 512.
\<close>

theorem C1_precedence_right_assoc:
  "outcome (run 20 getDefaultSymbolsTable ''2+3*4'') = Some (Inr 14)
   \<and> outcome (run 20 getDefaultSymbolsTable ''(2+3)*4'') = Some (Inr 20)
   \<and> getExpression 20 getDefaultSymbolsTable ''2^3^2'' =
       Some (Inr (BinaryExpression ''+''
                    (BinaryExpression ''^'' (ConstantExpression 2)
                       (BinaryExpression ''+''
                          (BinaryExpression ''^'' (ConstantExpression 3) (ConstantExpression 2))
                          (ConstantExpression 0)))
                    (ConstantExpression 0)))
   \<and> outcome (run 20 getDefaultSymbolsTable ''2^3^2'') = Some (Inr 512)"
proof (intro conjI)
  show "outcome (run 20 getDefaultSymbolsTable ''2+3*4'') = Some (Inr 14)"
    by (simp add: engine_eval)
  show "outcome (run 20 getDefaultSymbolsTable ''(2+3)*4'') = Some (Inr 20)"
    by (simp add: engine_eval)
  show "getExpression 20 getDefaultSymbolsTable ''2^3^2'' =
       Some (Inr (BinaryExpression ''+''
                    (BinaryExpression ''^'' (ConstantExpression 2)
                       (BinaryExpression ''+''
                          (BinaryExpression ''^'' (ConstantExpression 3) (ConstantExpression 2))
                          (ConstantExpression 0)))
                    (ConstantExpression 0)))"
    by (simp add: engine_eval)
  show "outcome (run 20 getDefaultSymbolsTable ''2^3^2'') = Some (Inr 512)"
    by (simp add: engine_eval)
qed

text \<open>
  The claim as stated fails at \<^verbatim>\<open>2^3^2\<close>: the call returns 512, and under no bound on the
  depth of the calls does it return 64, the value of \<^verbatim>\<open>(2^3)^2\<close>.
\<close>

theorem C1_power_chain_counterexample:
  "outcome (run 20 getDefaultSymbolsTable ''2^3^2'') = Some (Inr 512)
   \<and> \<not> (\<exists>n. outcome (run n getDefaultSymbolsTable ''2^3^2'') = Some (Inr 64))"
proof -
  have "outcome (run 20 getDefaultSymbolsTable ''2^3^2'') = Some (Inr 512)"
    by (simp add: engine_eval)
  then obtain st where r: "run 20 getDefaultSymbolsTable ''2^3^2'' = Some (Inr 512, st)"
    by (auto simp: outcome_def)
  have "outcome (run n getDefaultSymbolsTable ''2^3^2'') \<noteq> Some (Inr 64)" for n
    using run_bound_irrelevant[OF r, of n] by (auto simp: outcome_def)
  with r show ?thesis by (simp add: outcome_def)
qed

subsection \<open>C2: assignments\<close>

text \<open>
  C2, as the code has it: when the input contains \<^verbatim>\<open>=\<close>, \<^verbatim>\<open>run\<close> splits it at every \<^verbatim>\<open>=\<close> and
  takes the first two pieces, trimmed, as the left and the right part: the text before the
  first \<^verbatim>\<open>=\<close>, and the text between the first \<^verbatim>\<open>=\<close> and the second, or the end (what follows a
  second \<^verbatim>\<open>=\<close> is dropped; with one \<^verbatim>\<open>=\<close> this is the split at the first occurrence). A left
  part matching \<^verbatim>\<open>^[a-z]+\(x\)$\<close> stores the parsed right part as the function of the
  left-hand name; else a left part matching \<^verbatim>\<open>^[a-z]+$\<close> evaluates the right part and stores
  the number under the left-hand name; any other left part throws "Unknown assignment.",
  a SyntaxError of the spec; and every assignment that returns, returns 0.
\<close>

theorem C2_assignment:
  "(CHR ''='' \<in> set t \<longrightarrow>
      (\<exists>rest. split CHR ''='' t
               = takeWhile (\<lambda>d. d \<noteq> CHR ''='') t
                 # takeWhile (\<lambda>d. d \<noteq> CHR ''='') (drop 1 (dropWhile (\<lambda>d. d \<noteq> CHR ''='') t))
                 # rest)
      \<and> run n st t
          = handleAssignment n st (trim (takeWhile (\<lambda>d. d \<noteq> CHR ''='') t))
              (trim (takeWhile (\<lambda>d. d \<noteq> CHR ''='') (drop 1 (dropWhile (\<lambda>d. d \<noteq> CHR ''='') t)))))
   \<and> (length (filter (\<lambda>d. d = CHR ''='') t) = 1 \<longrightarrow> run n st t = run_split_first n st t)
   \<and> (funcRegExp left \<longrightarrow> handleAssignment n st left right = Some (Inr v, st') \<longrightarrow>
        v = 0 \<and> (\<exists>parsed c. getExpression n st right = Some (Inr parsed)
                   \<and> getCallable st' (takeWhile is_lower left) = Inr c
                   \<and> call_expression c = parsed))
   \<and> (\<not> funcRegExp left \<longrightarrow> varNameRegExp left \<longrightarrow>
        handleAssignment n st left right = Some (Inr v, st') \<longrightarrow>
        v = 0 \<and> (\<exists>num st1 x. evalString n right st = Some (Inr num, st1)
                   \<and> getVariable st' (NameText left) = Inr x \<and> var_value x = num))
   \<and> (\<not> funcRegExp left \<longrightarrow> \<not> varNameRegExp left \<longrightarrow>
        handleAssignment n st left right = Some (Inl UnknownAssignment, st))
   \<and> taxonomy_of UnknownAssignment = Some SyntaxError"
proof (intro conjI impI)
  assume eq: "CHR ''='' \<in> set t"
  from split_two[OF eq] obtain rest where
    sp: "split CHR ''='' t
           = takeWhile (\<lambda>d. d \<noteq> CHR ''='') t
             # takeWhile (\<lambda>d. d \<noteq> CHR ''='') (drop 1 (dropWhile (\<lambda>d. d \<noteq> CHR ''='') t))
             # rest"
    by blast
  then show "\<exists>rest. split CHR ''='' t
               = takeWhile (\<lambda>d. d \<noteq> CHR ''='') t
                 # takeWhile (\<lambda>d. d \<noteq> CHR ''='') (drop 1 (dropWhile (\<lambda>d. d \<noteq> CHR ''='') t))
                 # rest"
    by blast
  from eq sp show "run n st t
          = handleAssignment n st (trim (takeWhile (\<lambda>d. d \<noteq> CHR ''='') t))
              (trim (takeWhile (\<lambda>d. d \<noteq> CHR ''='') (drop 1 (dropWhile (\<lambda>d. d \<noteq> CHR ''='') t))))"
    by (simp add: run_def)
next
  assume one: "length (filter (\<lambda>d. d = CHR ''='') t) = 1"
  have eq: "CHR ''='' \<in> set t"
    by (rule conjunct1[OF single_occurrence[OF one]])
  have whole: "takeWhile (\<lambda>d. d \<noteq> CHR ''='') (drop 1 (dropWhile (\<lambda>d. d \<noteq> CHR ''='') t))
                  = drop 1 (dropWhile (\<lambda>d. d \<noteq> CHR ''='') t)"
    by (rule conjunct2[OF single_occurrence[OF one]])
  from split_two[OF eq] obtain rest where
    "split CHR ''='' t
           = takeWhile (\<lambda>d. d \<noteq> CHR ''='') t
             # takeWhile (\<lambda>d. d \<noteq> CHR ''='') (drop 1 (dropWhile (\<lambda>d. d \<noteq> CHR ''='') t))
             # rest"
    by blast
  then have "run n st t
          = handleAssignment n st (trim (takeWhile (\<lambda>d. d \<noteq> CHR ''='') t))
              (trim (takeWhile (\<lambda>d. d \<noteq> CHR ''='') (drop 1 (dropWhile (\<lambda>d. d \<noteq> CHR ''='') t))))"
    using eq by (simp add: run_def)
  also have "\<dots> = run_split_first n st t"
    by (simp only: whole run_split_first_def split_first_def prod.case)
  finally show "run n st t = run_split_first n st t" .
next
  assume f: "funcRegExp left" and ok: "handleAssignment n st left right = Some (Inr v, st')"
  from f ok obtain parsed where ge: "getExpression n st right = Some (Inr parsed)"
    by (auto simp: handleAssignment_def Let_def split: option.splits sum.splits)
  from f ok ge have s: "setSymbol (takeWhile is_lower left) (ExpressionValue parsed) st = (None, st')"
    and v: "v = 0"
    by (auto simp: handleAssignment_def Let_def funcRegExp_name simp del: setSymbol.simps
        split: option.splits prod.splits)
  from v show "v = 0" .
  from setSymbol_expression_stored[OF s] ge
  show "\<exists>parsed c. getExpression n st right = Some (Inr parsed)
                   \<and> getCallable st' (takeWhile is_lower left) = Inr c
                   \<and> call_expression c = parsed"
    by blast
next
  assume nf: "\<not> funcRegExp left" and vn: "varNameRegExp left"
    and ok: "handleAssignment n st left right = Some (Inr v, st')"
  from nf vn ok obtain num st1 where ev: "evalString n right st = Some (Inr num, st1)"
    by (auto simp: handleAssignment_def split: option.splits sum.splits)
  from nf vn ok ev have s: "setSymbol left (NumberValue num) st1 = (None, st')" and v: "v = 0"
    by (auto simp: handleAssignment_def simp del: setSymbol.simps split: option.splits prod.splits)
  from v show "v = 0" .
  from setSymbol_number_stored[OF s] ev
  show "\<exists>num st1 x. evalString n right st = Some (Inr num, st1)
                   \<and> getVariable st' (NameText left) = Inr x \<and> var_value x = num"
    by blast
next
  assume "\<not> funcRegExp left" "\<not> varNameRegExp left"
  then show "handleAssignment n st left right = Some (Inl UnknownAssignment, st)"
    by (simp add: handleAssignment_def)
next
  show "taxonomy_of UnknownAssignment = Some SyntaxError" by simp
qed

text \<open>
  The claim as stated fails at \<^verbatim>\<open>a=1=2\<close>: the call returns 0 and stores 1 under \<^verbatim>\<open>a\<close>, while
  the split at the first occurrence has the right part \<^verbatim>\<open>1=2\<close>, which does not tokenise.
\<close>

theorem C2_second_equals_counterexample:
  "outcome (run 20 getDefaultSymbolsTable ''a=1=2'') = Some (Inr 0)
   \<and> variable_after (run 20 getDefaultSymbolsTable ''a=1=2'') ''a'' = Some (Inr 1)
   \<and> split_first CHR ''='' ''a=1=2'' = (''a'', ''1=2'')
   \<and> outcome (run_split_first 20 getDefaultSymbolsTable ''a=1=2'') = Some (Inl UnknownTokens)"
proof (intro conjI)
  show "outcome (run 20 getDefaultSymbolsTable ''a=1=2'') = Some (Inr 0)"
    by (simp add: engine_eval)
  show "variable_after (run 20 getDefaultSymbolsTable ''a=1=2'') ''a'' = Some (Inr 1)"
    by (simp add: engine_eval)
  show "split_first CHR ''='' ''a=1=2'' = (''a'', ''1=2'')"
    by (simp add: split_first_def)
  show "outcome (run_split_first 20 getDefaultSymbolsTable ''a=1=2'') = Some (Inl UnknownTokens)"
    by (simp add: run_split_first_def split_first_def engine_eval)
qed

text \<open>
  C2 at the input \<^verbatim>\<open>x=5\<close> and at the assignments of \<^verbatim>\<open>x^2\<close> to \<^verbatim>\<open>f(x)\<close>, of \<^verbatim>\<open>5\<close> to \<^verbatim>\<open>x\<close> and
  of \<^verbatim>\<open>5\<close> to \<^verbatim>\<open>2x\<close>, on the default table.
\<close>

theorem C2_assignment_witness:
  "(let parsed = BinaryExpression ''+''
                   (BinaryExpression ''^'' (VariableExpression (NameText ''x'')) (ConstantExpression 2))
                   (ConstantExpression 0);
        stF = getDefaultSymbolsTable\<lparr>callables := callables getDefaultSymbolsTable @
                [\<lparr>call_name = ''f'', call_expression = parsed, call_isFinal = False\<rparr>]\<rparr>;
        stX = getDefaultSymbolsTable\<lparr>variables := variables getDefaultSymbolsTable @
                [\<lparr>var_name = ''x'', var_value = 5, var_isFinal = False\<rparr>]\<rparr>
    in CHR ''='' \<in> set ''x=5''
       \<and> length (filter (\<lambda>d. d = CHR ''='') ''x=5'') = 1
       \<and> run 20 getDefaultSymbolsTable ''x=5'' = handleAssignment 20 getDefaultSymbolsTable ''x'' ''5''
       \<and> run 20 getDefaultSymbolsTable ''x=5'' = run_split_first 20 getDefaultSymbolsTable ''x=5''
       \<and> funcRegExp ''f(x)''
       \<and> handleAssignment 20 getDefaultSymbolsTable ''f(x)'' ''x^2'' = Some (Inr 0, stF)
       \<and> (\<exists>c. getCallable stF ''f'' = Inr c \<and> call_expression c = parsed)
       \<and> \<not> funcRegExp ''x'' \<and> varNameRegExp ''x''
       \<and> handleAssignment 20 getDefaultSymbolsTable ''x'' ''5'' = Some (Inr 0, stX)
       \<and> (\<exists>x. getVariable stX (NameText ''x'') = Inr x \<and> var_value x = 5)
       \<and> \<not> funcRegExp ''2x'' \<and> \<not> varNameRegExp ''2x''
       \<and> handleAssignment 20 getDefaultSymbolsTable ''2x'' ''5''
           = Some (Inl UnknownAssignment, getDefaultSymbolsTable))"
proof -
  define parsed where "parsed = BinaryExpression ''+''
                   (BinaryExpression ''^'' (VariableExpression (NameText ''x'')) (ConstantExpression 2))
                   (ConstantExpression 0)"
  define stF where "stF = getDefaultSymbolsTable\<lparr>callables := callables getDefaultSymbolsTable @
                [\<lparr>call_name = ''f'', call_expression = parsed, call_isFinal = False\<rparr>]\<rparr>"
  define stX where "stX = getDefaultSymbolsTable\<lparr>variables := variables getDefaultSymbolsTable @
                [\<lparr>var_name = ''x'', var_value = 5, var_isFinal = False\<rparr>]\<rparr>"
  have h1: "CHR ''='' \<in> set ''x=5''" by simp
  have h2: "length (filter (\<lambda>d. d = CHR ''='') ''x=5'') = 1" by simp
  have h3: "funcRegExp ''f(x)''" by (simp add: funcRegExp_def is_lower_def)
  have h4: "handleAssignment 20 getDefaultSymbolsTable ''f(x)'' ''x^2'' = Some (Inr 0, stF)"
    by (simp add: stF_def parsed_def engine_eval)
  have h5: "\<not> funcRegExp ''x''" by (simp add: funcRegExp_def is_lower_def)
  have h6: "varNameRegExp ''x''" by (simp add: varNameRegExp_def is_lower_def)
  have h7: "handleAssignment 20 getDefaultSymbolsTable ''x'' ''5'' = Some (Inr 0, stX)"
    by (simp add: stX_def engine_eval)
  have h8: "\<not> funcRegExp ''2x''" by (simp add: funcRegExp_def is_lower_def)
  have h9: "\<not> varNameRegExp ''2x''" by (simp add: varNameRegExp_def is_lower_def)
  have t1: "takeWhile (\<lambda>d. d \<noteq> CHR ''='') ''x=5'' = ''x''" by simp
  have t2: "takeWhile (\<lambda>d. d \<noteq> CHR ''='') (drop 1 (dropWhile (\<lambda>d. d \<noteq> CHR ''='') ''x=5'')) = ''5''"
    by simp
  have t3: "trim ''x'' = ''x''" "trim ''5'' = ''5''" by (simp_all add: trim_def is_space_def)
  have t4: "takeWhile is_lower ''f(x)'' = ''f''" by (simp add: is_lower_def)
  note a = C2_assignment[of "''x=5''" 20 getDefaultSymbolsTable "''f(x)''" "''x^2''" 0 stF]
  note b = C2_assignment[of "''x=5''" 20 getDefaultSymbolsTable "''x''" "''5''" 0 stX]
  note c = C2_assignment[of "''x=5''" 20 getDefaultSymbolsTable "''2x''" "''5''" 0 stX]
  from a h1 have r1: "run 20 getDefaultSymbolsTable ''x=5'' = handleAssignment 20 getDefaultSymbolsTable ''x'' ''5''"
    by (simp only: t1 t2 t3)
  from a h2 have r2: "run 20 getDefaultSymbolsTable ''x=5'' = run_split_first 20 getDefaultSymbolsTable ''x=5''"
    by blast
  from a h3 h4 have "\<exists>p c. getExpression 20 getDefaultSymbolsTable ''x^2'' = Some (Inr p)
                   \<and> getCallable stF (takeWhile is_lower ''f(x)'') = Inr c
                   \<and> call_expression c = p"
    by blast
  then have "\<exists>p c. getExpression 20 getDefaultSymbolsTable ''x^2'' = Some (Inr p)
                   \<and> getCallable stF ''f'' = Inr c \<and> call_expression c = p"
    by (simp only: t4)
  moreover have "getExpression 20 getDefaultSymbolsTable ''x^2'' = Some (Inr parsed)"
    by (simp add: parsed_def engine_eval)
  ultimately have r3: "\<exists>c. getCallable stF ''f'' = Inr c \<and> call_expression c = parsed"
    by auto
  from b h5 h6 h7 have "\<exists>num st1 x. evalString 20 ''5'' getDefaultSymbolsTable = Some (Inr num, st1)
                   \<and> getVariable stX (NameText ''x'') = Inr x \<and> var_value x = num"
    by blast
  moreover have "evalString 20 ''5'' getDefaultSymbolsTable = Some (Inr 5, getDefaultSymbolsTable)"
    by (simp add: engine_eval)
  ultimately have r4: "\<exists>x. getVariable stX (NameText ''x'') = Inr x \<and> var_value x = 5"
    by auto
  from c h8 h9 have r5: "handleAssignment 20 getDefaultSymbolsTable ''2x'' ''5''
           = Some (Inl UnknownAssignment, getDefaultSymbolsTable)"
    by blast
  from h1 h2 r1 r2 h3 h4 r3 h5 h6 h7 r4 h8 h9 r5 show ?thesis
    unfolding Let_def parsed_def[symmetric] stF_def[symmetric] stX_def[symmetric]
    by blast
qed

subsection \<open>C3: running a query twice\<close>

subsection \<open>C4: the history variables\<close>

text \<open>
  C4: after every call \<^verbatim>\<open>run(text)\<close> of a text without \<^verbatim>\<open>=\<close> that returns a number \<open>r\<close>,
  \<^verbatim>\<open>preans\<close> holds the number \<^verbatim>\<open>ans\<close> held before the call and \<^verbatim>\<open>ans\<close> holds \<open>r\<close>; on a
  fresh engine \<^verbatim>\<open>run("3+3")\<close> returns 6 and the following \<^verbatim>\<open>run("ans*2")\<close> returns 12.
\<close>

theorem C4_history:
  "(CHR ''='' \<notin> set t \<longrightarrow> run n st t = Some (Inr r, st') \<longrightarrow>
      (\<exists>a p a'. getVariable st (NameText ''ans'') = Inr a
         \<and> getVariable st' (NameText ''preans'') = Inr p \<and> var_value p = var_value a
         \<and> getVariable st' (NameText ''ans'') = Inr a' \<and> var_value a' = r))
   \<and> outcome (runs 20 getDefaultSymbolsTable [''3+3'', ''ans*2'']) = Some [Inr 6, Inr 12]"
proof (intro conjI impI)
  assume plain: "CHR ''='' \<notin> set t" and ok: "run n st t = Some (Inr r, st')"
  from plain ok obtain st1 where ev: "evalString n t st = Some (Inr r, st1)"
    by (auto simp: run_def split: option.splits sum.splits prod.splits)
  from plain ok ev obtain a where a: "getVariable st1 (NameText ''ans'') = Inr a"
    by (auto simp: run_def split: sum.splits)
  from plain ok ev a obtain st2 where
    s1: "setSymbol ''preans'' (NumberValue (var_value a)) st1 = (None, st2)"
    by (auto simp: run_def split: option.splits prod.splits)
  from plain ok ev a s1 have s2: "setSymbol ''ans'' (NumberValue r) st2 = (None, st')"
    by (auto simp: run_def split: option.splits prod.splits)
  have "getVariable st (NameText ''ans'') = Inr a"
    using getVariable_same_but_x[OF evalString_frame[OF ev], of "NameText ''ans''"] a by simp
  moreover from setSymbol_number_stored[OF s1] obtain p where
    "getVariable st2 (NameText ''preans'') = Inr p" "var_value p = var_value a" by auto
  then have "getVariable st' (NameText ''preans'') = Inr p \<and> var_value p = var_value a"
    using getVariable_after_setSymbol[OF s2, of "NameText ''preans''"] by simp
  moreover from setSymbol_number_stored[OF s2] obtain a' where
    "getVariable st' (NameText ''ans'') = Inr a'" "var_value a' = r" by auto
  ultimately show "\<exists>a p a'. getVariable st (NameText ''ans'') = Inr a
         \<and> getVariable st' (NameText ''preans'') = Inr p \<and> var_value p = var_value a
         \<and> getVariable st' (NameText ''ans'') = Inr a' \<and> var_value a' = r"
    by blast
next
  show "outcome (runs 20 getDefaultSymbolsTable [''3+3'', ''ans*2'']) = Some [Inr 6, Inr 12]"
    by (simp add: engine_eval)
qed

text \<open>The general part of C4 at the query \<^verbatim>\<open>3+3\<close> on the default table.\<close>

theorem C4_history_witness:
  "CHR ''='' \<notin> set ''3+3''
   \<and> run 20 getDefaultSymbolsTable ''3+3''
       = Some (Inr 6, getDefaultSymbolsTable\<lparr>variables :=
           [\<lparr>var_name = ''ans'', var_value = 6, var_isFinal = False\<rparr>,
            \<lparr>var_name = ''preans'', var_value = 0, var_isFinal = False\<rparr>,
            \<lparr>var_name = ''pi'', var_value = pi, var_isFinal = True\<rparr>,
            \<lparr>var_name = ''e'', var_value = exp 1, var_isFinal = True\<rparr>]\<rparr>)
   \<and> (\<exists>a p a'. getVariable getDefaultSymbolsTable (NameText ''ans'') = Inr a
         \<and> getVariable (getDefaultSymbolsTable\<lparr>variables :=
           [\<lparr>var_name = ''ans'', var_value = 6, var_isFinal = False\<rparr>,
            \<lparr>var_name = ''preans'', var_value = 0, var_isFinal = False\<rparr>,
            \<lparr>var_name = ''pi'', var_value = pi, var_isFinal = True\<rparr>,
            \<lparr>var_name = ''e'', var_value = exp 1, var_isFinal = True\<rparr>]\<rparr>) (NameText ''preans'') = Inr p
         \<and> var_value p = var_value a
         \<and> getVariable (getDefaultSymbolsTable\<lparr>variables :=
           [\<lparr>var_name = ''ans'', var_value = 6, var_isFinal = False\<rparr>,
            \<lparr>var_name = ''preans'', var_value = 0, var_isFinal = False\<rparr>,
            \<lparr>var_name = ''pi'', var_value = pi, var_isFinal = True\<rparr>,
            \<lparr>var_name = ''e'', var_value = exp 1, var_isFinal = True\<rparr>]\<rparr>) (NameText ''ans'') = Inr a'
         \<and> var_value a' = 6)"
proof -
  have h1: "CHR ''='' \<notin> set ''3+3''" by simp
  have h2: "run 20 getDefaultSymbolsTable ''3+3''
       = Some (Inr 6, getDefaultSymbolsTable\<lparr>variables :=
           [\<lparr>var_name = ''ans'', var_value = 6, var_isFinal = False\<rparr>,
            \<lparr>var_name = ''preans'', var_value = 0, var_isFinal = False\<rparr>,
            \<lparr>var_name = ''pi'', var_value = pi, var_isFinal = True\<rparr>,
            \<lparr>var_name = ''e'', var_value = exp 1, var_isFinal = True\<rparr>]\<rparr>)"
    by (simp add: engine_eval)
  from C4_history[of "''3+3''" 20 getDefaultSymbolsTable 6] h1 h2 show ?thesis
    by blast
qed

subsection \<open>C5: assignments round-trip\<close>

text \<open>
  C5: from the default table, after \<^verbatim>\<open>run("x=5")\<close> the query \<^verbatim>\<open>run("x")\<close> returns 5, and after
  \<^verbatim>\<open>run("f(x)=x^2")\<close> the call \<^verbatim>\<open>run("f(3)")\<close> returns 9; each assignment returns 0.
\<close>

theorem C5_assignment_round_trip:
  "outcome (runs 20 getDefaultSymbolsTable [''x=5'', ''x'']) = Some [Inr 0, Inr 5]
   \<and> outcome (runs 20 getDefaultSymbolsTable [''f(x)=x^2'', ''f(3)'']) = Some [Inr 0, Inr 9]"
proof (intro conjI)
  show "outcome (runs 20 getDefaultSymbolsTable [''x=5'', ''x'']) = Some [Inr 0, Inr 5]"
    by (simp add: engine_eval)
  show "outcome (runs 20 getDefaultSymbolsTable [''f(x)=x^2'', ''f(3)'']) = Some [Inr 0, Inr 9]"
    by (simp add: engine_eval)
qed

subsection \<open>C6: the division guard\<close>

text \<open>
  C6: \<^verbatim>\<open>guidedDivide\<close> throws "Cannot divide by zero." exactly when the absolute value of the
  right operand is below \<open>10\<^sup>-\<^sup>8\<close> and returns the quotient otherwise; so does the
  evaluation of a division node whose operands evaluate to numbers. On a fresh engine
  \<^verbatim>\<open>run("1/0.000000001")\<close> throws that error, the spec's ArithmeticError, and
  \<^verbatim>\<open>run("1/0.0001")\<close> returns a number.
\<close>

theorem C6_division_guard:
  "(guidedDivide l r = Inl CannotDivideByZero \<longleftrightarrow> \<bar>r\<bar> < 0.00000001)
   \<and> (\<not> \<bar>r\<bar> < 0.00000001 \<longrightarrow> guidedDivide l r = Inr (l / r))
   \<and> (eval n left st = Some (Inr lv, st1) \<longrightarrow> eval n right st1 = Some (Inr rv, st2) \<longrightarrow>
        eval n (BinaryExpression ''/'' left right) st
          = Some (if \<bar>rv\<bar> < 0.00000001 then Inl CannotDivideByZero else Inr (lv / rv), st2))
   \<and> outcome (run 20 getDefaultSymbolsTable ''1/0.000000001'') = Some (Inl CannotDivideByZero)
   \<and> taxonomy_of CannotDivideByZero = Some ArithmeticError
   \<and> outcome (run 20 getDefaultSymbolsTable ''1/0.0001'') = Some (Inr 10000)"
proof (intro conjI impI)
  show "guidedDivide l r = Inl CannotDivideByZero \<longleftrightarrow> \<bar>r\<bar> < 0.00000001"
    by (simp add: guidedDivide_def)
  show "guidedDivide l r = Inr (l / r)" if "\<not> \<bar>r\<bar> < 0.00000001"
    using that by (simp add: guidedDivide_def)
  show "eval n (BinaryExpression ''/'' left right) st
          = Some (if \<bar>rv\<bar> < 0.00000001 then Inl CannotDivideByZero else Inr (lv / rv), st2)"
    if "eval n left st = Some (Inr lv, st1)" "eval n right st1 = Some (Inr rv, st2)"
    using that by (simp add: apply_operator_def guidedDivide_def)
  show "outcome (run 20 getDefaultSymbolsTable ''1/0.000000001'') = Some (Inl CannotDivideByZero)"
    by (simp add: engine_eval)
  show "taxonomy_of CannotDivideByZero = Some ArithmeticError"
    by simp
  show "outcome (run 20 getDefaultSymbolsTable ''1/0.0001'') = Some (Inr 10000)"
    by (simp add: engine_eval)
qed

text \<open>C6 at the divisors \<open>0.0001\<close> and \<open>0.000000001\<close>.\<close>

theorem C6_division_guard_witness:
  "\<not> \<bar>0.0001 :: real\<bar> < 0.00000001
   \<and> guidedDivide 1 0.0001 = Inr 10000
   \<and> eval 0 (ConstantExpression 1) getDefaultSymbolsTable = Some (Inr 1, getDefaultSymbolsTable)
   \<and> eval 0 (ConstantExpression 0.000000001) getDefaultSymbolsTable
       = Some (Inr 0.000000001, getDefaultSymbolsTable)
   \<and> eval 0 (BinaryExpression ''/'' (ConstantExpression 1) (ConstantExpression 0.000000001))
         getDefaultSymbolsTable
       = Some (Inl CannotDivideByZero, getDefaultSymbolsTable)"
proof -
  have h1: "\<not> \<bar>0.0001 :: real\<bar> < 0.00000001" by simp
  have h2: "eval 0 (ConstantExpression 1) getDefaultSymbolsTable = Some (Inr 1, getDefaultSymbolsTable)"
    by simp
  have h3: "eval 0 (ConstantExpression 0.000000001) getDefaultSymbolsTable
       = Some (Inr 0.000000001, getDefaultSymbolsTable)"
    by simp
  from C6_division_guard[of 1 "0.0001" 0 "ConstantExpression 1" getDefaultSymbolsTable 1
      getDefaultSymbolsTable "ConstantExpression 0.000000001" "0.000000001" getDefaultSymbolsTable]
    h1 h2 h3
  show ?thesis by simp
qed

subsection \<open>C7: a failing assignment\<close>

text \<open>
  C7, as the code has it: on a fresh engine \<^verbatim>\<open>run("pi=3")\<close> throws "Cannot modify pi", the
  spec's SymbolMutationError, and leaves the table as it was, \<^verbatim>\<open>pi\<close> holding its constant.
  In a table where no two variables and no two callables share a name, an assignment that
  throws has changed no callable, and no variable other than the argument slot \<^verbatim>\<open>x\<close>:
  the assigned symbol is written last, after the right-hand side was parsed and
  evaluated, and only the function calls of the right-hand side write \<^verbatim>\<open>x\<close>.
\<close>

theorem C7_failed_assignment:
  "run 20 getDefaultSymbolsTable ''pi=3'' = Some (Inl (CannotModify ''pi''), getDefaultSymbolsTable)
   \<and> taxonomy_of (CannotModify ''pi'') = Some SymbolMutationError
   \<and> variable_after (run 20 getDefaultSymbolsTable ''pi=3'') ''pi'' = Some (Inr pi)
   \<and> (CHR ''='' \<in> set t \<longrightarrow> distinct (map var_name (variables st)) \<longrightarrow>
        distinct (map call_name (callables st)) \<longrightarrow> run n st t = Some (Inl e, st') \<longrightarrow>
        same_but_x st st')"
proof (intro conjI impI)
  show "run 20 getDefaultSymbolsTable ''pi=3'' = Some (Inl (CannotModify ''pi''), getDefaultSymbolsTable)"
    by (simp add: engine_eval)
  show "taxonomy_of (CannotModify ''pi'') = Some SymbolMutationError"
    by simp
  show "variable_after (run 20 getDefaultSymbolsTable ''pi=3'') ''pi'' = Some (Inr pi)"
    by (simp add: engine_eval)
next
  assume eq: "CHR ''='' \<in> set t"
    and dv: "distinct (map var_name (variables st))"
    and dc: "distinct (map call_name (callables st))"
    and fails: "run n st t = Some (Inl e, st')"
  show "same_but_x st st'"
  proof (cases "split CHR ''='' t")
    case Nil
    with eq fails show ?thesis by (simp add: run_def same_but_x_refl)
  next
    case (Cons l rest)
    show ?thesis
    proof (cases rest)
      case Nil
      with eq fails Cons show ?thesis by (simp add: run_def same_but_x_refl)
    next
      case c2: (Cons r rest2)
      with eq fails Cons have "handleAssignment n st (trim l) (trim r) = Some (Inl e, st')"
        by (simp add: run_def)
      with dv dc show ?thesis by (rule handleAssignment_fails)
    qed
  qed
qed

text \<open>
  The general part of C7 at the assignment \<^verbatim>\<open>pi=f(7)\<close>, in the table the definition
  \<^verbatim>\<open>f(x)=x\<close> leaves.
\<close>

theorem C7_failed_assignment_witness:
  "(let st1 = getDefaultSymbolsTable\<lparr>callables := callables getDefaultSymbolsTable @
                [\<lparr>call_name = ''f'',
                  call_expression = BinaryExpression ''+'' (VariableExpression (NameText ''x''))
                                      (ConstantExpression 0),
                  call_isFinal = False\<rparr>]\<rparr>;
        st2 = st1\<lparr>variables := variables st1 @
                [\<lparr>var_name = ''x'', var_value = 7, var_isFinal = False\<rparr>]\<rparr>
    in CHR ''='' \<in> set ''pi=f(7)''
       \<and> distinct (map var_name (variables st1))
       \<and> distinct (map call_name (callables st1))
       \<and> run 20 getDefaultSymbolsTable ''f(x)=x'' = Some (Inr 0, st1)
       \<and> run 20 st1 ''pi=f(7)'' = Some (Inl (CannotModify ''pi''), st2)
       \<and> same_but_x st1 st2)"
proof -
  define st1 where "st1 = getDefaultSymbolsTable\<lparr>callables := callables getDefaultSymbolsTable @
                [\<lparr>call_name = ''f'',
                  call_expression = BinaryExpression ''+'' (VariableExpression (NameText ''x''))
                                      (ConstantExpression 0),
                  call_isFinal = False\<rparr>]\<rparr>"
  define st2 where "st2 = st1\<lparr>variables := variables st1 @
                [\<lparr>var_name = ''x'', var_value = 7, var_isFinal = False\<rparr>]\<rparr>"
  have h1: "CHR ''='' \<in> set ''pi=f(7)''" by simp
  have h2: "distinct (map var_name (variables st1))"
    by (simp add: st1_def getDefaultSymbolsTable_def)
  have h3: "distinct (map call_name (callables st1))"
    by (simp add: st1_def getDefaultSymbolsTable_def)
  have h4: "run 20 getDefaultSymbolsTable ''f(x)=x'' = Some (Inr 0, st1)"
    by (simp add: st1_def engine_eval)
  have h5: "run 20 st1 ''pi=f(7)'' = Some (Inl (CannotModify ''pi''), st2)"
    by (simp add: st1_def st2_def engine_eval)
  from C7_failed_assignment[of "''pi=f(7)''" st1 20 "CannotModify ''pi''" st2] h1 h2 h3 h5
  have "same_but_x st1 st2" by blast
  with h1 h2 h3 h4 h5 show ?thesis
    by (simp add: st1_def st2_def Let_def)
qed

text \<open>
  The claim as stated fails: after \<^verbatim>\<open>f(x)=x\<close> the assignment \<^verbatim>\<open>pi=f(7)\<close> throws "Cannot modify
  pi" and yet leaves a variable \<^verbatim>\<open>x = 7\<close> in the table, which had none before.
\<close>

theorem C7_argument_slot_counterexample:
  "outcome (runs 20 getDefaultSymbolsTable [''f(x)=x'', ''pi=f(7)''])
     = Some [Inr 0, Inl (CannotModify ''pi'')]
   \<and> variable_after (runs 20 getDefaultSymbolsTable [''f(x)=x'']) ''x''
     = Some (Inl (NotStoredVariable (NameText ''x'')))
   \<and> variable_after (runs 20 getDefaultSymbolsTable [''f(x)=x'', ''pi=f(7)'']) ''x''
     = Some (Inr 7)"
proof (intro conjI)
  show "outcome (runs 20 getDefaultSymbolsTable [''f(x)=x'', ''pi=f(7)''])
     = Some [Inr 0, Inl (CannotModify ''pi'')]"
    by (simp add: engine_eval)
  show "variable_after (runs 20 getDefaultSymbolsTable [''f(x)=x'']) ''x''
     = Some (Inl (NotStoredVariable (NameText ''x'')))"
    by (simp add: engine_eval)
  show "variable_after (runs 20 getDefaultSymbolsTable [''f(x)=x'', ''pi=f(7)'']) ''x''
     = Some (Inr 7)"
    by (simp add: engine_eval)
qed

subsection \<open>C8: factorial\<close>

text \<open>
  C8: on a fresh engine \<^verbatim>\<open>run("5!")\<close> returns 120, \<^verbatim>\<open>run("0!")\<close> returns 1, and
  \<^verbatim>\<open>run("(-3)!")\<close> returns the number -1: nothing is thrown.
\<close>

theorem C8_factorial_values:
  "outcome (run 20 getDefaultSymbolsTable ''5!'') = Some (Inr 120)
   \<and> outcome (run 20 getDefaultSymbolsTable ''0!'') = Some (Inr 1)
   \<and> outcome (run 20 getDefaultSymbolsTable ''(-3)!'') = Some (Inr (- 1))"
proof (intro conjI)
  show "outcome (run 20 getDefaultSymbolsTable ''5!'') = Some (Inr 120)"
    by (simp add: engine_eval)
  show "outcome (run 20 getDefaultSymbolsTable ''0!'') = Some (Inr 1)"
    by (simp add: engine_eval)
  show "outcome (run 20 getDefaultSymbolsTable ''(-3)!'') = Some (Inr (- 1))"
    by (simp add: engine_eval)
qed

subsection \<open>C9: factorial of a number that is not an integer\<close>

text \<open>
  C9, as the code has it. Whatever the numbers are, \<^verbatim>\<open>factorialise\<close> calls itself only from an
  argument that is neither below zero nor zero, on that argument less one, and it returns
  exactly when a call meets one of the two tests. On the reals, an operand that is not an
  integer never reaches the argument zero; no argument is below both the operand and \<open>-1\<close>;
  and such an operand \<open>v\<close>, when not negative, returns within a depth of calls \<open>n\<close> exactly
  when \<open>\<lceil>v\<rceil> < n\<close>. At \<open>0.5\<close> the calls are of \<open>0.5\<close> and \<open>-0.5\<close>, and the result is \<open>-0.5\<close>. On
  \<^verbatim>\<open>NaN\<close> every call is of \<^verbatim>\<open>NaN\<close> and no depth is enough.
\<close>

theorem C9_factorial_fractional:
  "list_all (\<lambda>a. \<not> lt_zero ops a \<and> \<not> eq_zero ops a) (butlast (factorialise_calls_on ops n v))
   \<and> tl (factorialise_calls_on ops n v) = map (sub_one ops) (butlast (factorialise_calls_on ops n v))
   \<and> ((factorialise_on ops n v \<noteq> None)
        = (factorialise_calls_on ops n v \<noteq> []
           \<and> (lt_zero ops (last (factorialise_calls_on ops n v))
              \<or> eq_zero ops (last (factorialise_calls_on ops n v)))))
   \<and> (u \<notin> \<int> \<longrightarrow> 0 \<notin> set (factorialise_calls_on real_numbers n u))
   \<and> list_all (\<lambda>a. min u (- 1) \<le> a) (factorialise_calls_on real_numbers n u)
   \<and> (u \<notin> \<int> \<longrightarrow> 0 \<le> u \<longrightarrow> (factorialise_on real_numbers n u \<noteq> None) = (nat \<lceil>u\<rceil> < n))
   \<and> factorialise_calls_on real_numbers 20 (1 / 2) = [1 / 2, - 1 / 2]
   \<and> factorialise_on real_numbers 20 (1 / 2) = Some (- 1 / 2)
   \<and> outcome (run 20 getDefaultSymbolsTable ''0.5!'') = Some (Inr (- 1 / 2))
   \<and> factorialise_on js_numbers n NaN = None
   \<and> factorialise_calls_on js_numbers n NaN = replicate n NaN"
proof -
  have 1: "list_all (\<lambda>a. \<not> lt_zero ops a \<and> \<not> eq_zero ops a) (butlast (factorialise_calls_on ops n v))"
    by (rule factorialise_calls_on_guards)
  have 2: "tl (factorialise_calls_on ops n v) = map (sub_one ops) (butlast (factorialise_calls_on ops n v))"
    by (rule factorialise_calls_on_chain)
  have 3: "(factorialise_on ops n v \<noteq> None)
        = (factorialise_calls_on ops n v \<noteq> []
           \<and> (lt_zero ops (last (factorialise_calls_on ops n v))
              \<or> eq_zero ops (last (factorialise_calls_on ops n v))))"
    by (rule factorialise_on_returns)
  have 4: "u \<notin> \<int> \<longrightarrow> 0 \<notin> set (factorialise_calls_on real_numbers n u)"
  proof
    assume "u \<notin> \<int>"
    then have "list_all (\<lambda>a. a \<notin> \<int>) (factorialise_calls_on real_numbers n u)"
      by (rule factorialise_calls_on_real_fractional)
    then show "0 \<notin> set (factorialise_calls_on real_numbers n u)"
      by (auto simp: list_all_iff)
  qed
  have 5: "list_all (\<lambda>a. min u (- 1) \<le> a) (factorialise_calls_on real_numbers n u)"
    by (rule factorialise_calls_on_real_bound)
  have 6: "u \<notin> \<int> \<longrightarrow> 0 \<le> u \<longrightarrow> (factorialise_on real_numbers n u \<noteq> None) = (nat \<lceil>u\<rceil> < n)"
    using factorialise_on_real_depth[of u n] by blast
  have 7: "factorialise_calls_on real_numbers 20 (1 / 2) = [1 / 2, - 1 / 2]"
    by (simp add: factorialise_on_numeral real_numbers_def)
  have 8: "factorialise_on real_numbers 20 (1 / 2) = Some (- 1 / 2)"
    by (simp add: factorialise_on_numeral real_numbers_def)
  have 9: "outcome (run 20 getDefaultSymbolsTable ''0.5!'') = Some (Inr (- 1 / 2))"
    by (simp add: engine_eval)
  have 10: "factorialise_on js_numbers n NaN = None"
    by (simp add: factorialise_on_NaN)
  have 11: "factorialise_calls_on js_numbers n NaN = replicate n NaN"
    by (simp add: factorialise_on_NaN)
  from 1 2 3 4 5 6 7 8 9 10 11 show ?thesis by (intro conjI)
qed

text \<open>The parts of C9 with a condition, at the operand \<open>1/2\<close> and the depth 20.\<close>

theorem C9_factorial_fractional_witness:
  "(1 / 2 :: real) \<notin> \<int> \<and> (0 :: real) \<le> 1 / 2
   \<and> 0 \<notin> set (factorialise_calls_on real_numbers 20 (1 / 2))
   \<and> (factorialise_on real_numbers 20 (1 / 2) \<noteq> None) = (nat \<lceil>1 / 2 :: real\<rceil> < 20)"
proof -
  have h: "(1 / 2 :: real) \<notin> \<int>" by (rule half_not_int)
  have p: "(0 :: real) \<le> 1 / 2" by simp
  from C9_factorial_fractional[of real_numbers 20 "1 / 2" "1 / 2"] h p
  have "0 \<notin> set (factorialise_calls_on real_numbers 20 (1 / 2))"
    and "(factorialise_on real_numbers 20 (1 / 2) \<noteq> None) = (nat \<lceil>1 / 2 :: real\<rceil> < 20)"
    by blast+
  with h p show ?thesis by (intro conjI)
qed

text \<open>
  The claim as stated fails: at \<open>0.5\<close> the recursion ends at its second call, of \<open>-0.5\<close>, and the
  query \<^verbatim>\<open>0.5!\<close> returns \<open>-0.5\<close>; and no operand has a call whose argument is below both the
  operand and \<open>-1\<close>, so that no recursion goes toward negative infinity.
\<close>

theorem C9_no_descent_counterexample:
  "factorialise_calls_on real_numbers 20 (1 / 2) = [1 / 2, - 1 / 2]
   \<and> outcome (run 20 getDefaultSymbolsTable ''0.5!'') = Some (Inr (- 1 / 2))
   \<and> \<not> (\<exists>n v a. a \<in> set (factorialise_calls_on real_numbers n v) \<and> a < v \<and> a < - 1)"
proof (intro conjI)
  show "factorialise_calls_on real_numbers 20 (1 / 2) = [1 / 2, - 1 / 2]"
    by (simp add: factorialise_on_numeral real_numbers_def)
  show "outcome (run 20 getDefaultSymbolsTable ''0.5!'') = Some (Inr (- 1 / 2))"
    by (simp add: engine_eval)
  show "\<not> (\<exists>n v a. a \<in> set (factorialise_calls_on real_numbers n v) \<and> a < v \<and> a < - 1)"
  proof
    assume "\<exists>n v a. a \<in> set (factorialise_calls_on real_numbers n v) \<and> a < v \<and> a < - 1"
    then obtain n v a where a: "a \<in> set (factorialise_calls_on real_numbers n v)"
      and lt: "a < v" "a < - 1" by blast
    from factorialise_calls_on_real_bound[of v n] a have "min v (- 1) \<le> a"
      by (simp add: list_all_iff)
    with lt show False by simp
  qed
qed

subsection \<open>C10: the empty input\<close>

text \<open>
  C10: for the empty input, and for every assignment with an empty right-hand side (a
  left part matching one of the two patterns of \<^verbatim>\<open>_handleAssignment\<close>, and a right part that
  is empty once trimmed, as in \<^verbatim>\<open>run("a=")\<close> or \<^verbatim>\<open>run("f(x)=")\<close>), whatever the table: the
  tokeniser gives no token, \<^verbatim>\<open>parse\<close> of no token returns \<^verbatim>\<open>null\<close>, \<^verbatim>\<open>evalString\<close> and
  \<^verbatim>\<open>_getExpression\<close> read \<^verbatim>\<open>.expression\<close> of it, and \<^verbatim>\<open>run\<close> ends in that \<open>TypeError\<close>, which
  is none of the errors of the spec's taxonomy; no number is returned and the table is as
  it was.
\<close>

theorem C10_empty_input:
  "tokenise [] fns = Inr []
   \<and> parse (Suc n) i [] = Some (Inr None)
   \<and> evalString (Suc n) [] st = Some (Inl TypeError, st)
   \<and> getExpression (Suc n) st [] = Some (Inl TypeError)
   \<and> run (Suc n) st [] = Some (Inl TypeError, st)
   \<and> (funcRegExp left \<or> varNameRegExp left \<longrightarrow>
        handleAssignment (Suc n) st left [] = Some (Inl TypeError, st))
   \<and> (CHR ''='' \<in> set t \<longrightarrow> split CHR ''='' t = l # r # rest \<longrightarrow> trim r = [] \<longrightarrow>
        funcRegExp (trim l) \<or> varNameRegExp (trim l) \<longrightarrow>
        run (Suc n) st t = Some (Inl TypeError, st))
   \<and> run (Suc n) st ''a='' = Some (Inl TypeError, st)
   \<and> run (Suc n) st ''f(x)='' = Some (Inl TypeError, st)
   \<and> taxonomy_of TypeError = None"
proof -
  have tok: "tokenise [] fns = Inr []" for fns
    by (simp add: tokenise_eval)
  have par: "parse (Suc n) i [] = Some (Inr None)" for i
    by (simp add: parse_def parse_body_def)
  have ev: "evalString (Suc n) [] st = Some (Inl TypeError, st)"
    by (simp add: evalString_def tok par)
  have ge: "getExpression (Suc n) st [] = Some (Inl TypeError)"
    by (simp add: getExpression_def tok par)
  have r1: "run (Suc n) st [] = Some (Inl TypeError, st)"
    by (simp add: run_def ev)
  have h: "handleAssignment (Suc n) st left [] = Some (Inl TypeError, st)"
    if "funcRegExp left \<or> varNameRegExp left" for left
    using that by (auto simp: handleAssignment_def Let_def ev ge)
  have g: "run (Suc n) st t = Some (Inl TypeError, st)"
    if "CHR ''='' \<in> set t" "split CHR ''='' t = l # r # rest" "trim r = []"
      "funcRegExp (trim l) \<or> varNameRegExp (trim l)"
    using that h[of "trim l"] by (simp add: run_def)
  have r2: "run (Suc n) st ''a='' = Some (Inl TypeError, st)"
    by (simp add: run_def handleAssignment_def funcRegExp_def varNameRegExp_def
        trim_def is_lower_def is_space_def ev)
  have r3: "run (Suc n) st ''f(x)='' = Some (Inl TypeError, st)"
    by (simp add: run_def handleAssignment_def funcRegExp_def varNameRegExp_def
        trim_def is_lower_def is_space_def ge)
  from tok par ev ge r1 h g r2 r3 show ?thesis by simp
qed

text \<open>
  The general part of C10 at the left part \<^verbatim>\<open>f(x)\<close> and at the input \<^verbatim>\<open>total =\<close> followed by
  two spaces, on the default table.
\<close>

theorem C10_empty_input_witness:
  "(funcRegExp ''f(x)'' \<or> varNameRegExp ''f(x)'')
   \<and> handleAssignment 1 getDefaultSymbolsTable ''f(x)'' [] = Some (Inl TypeError, getDefaultSymbolsTable)
   \<and> CHR ''='' \<in> set ''total =  ''
   \<and> split CHR ''='' ''total =  '' = [''total '', ''  '']
   \<and> trim ''  '' = []
   \<and> (funcRegExp (trim ''total '') \<or> varNameRegExp (trim ''total ''))
   \<and> run 1 getDefaultSymbolsTable ''total =  '' = Some (Inl TypeError, getDefaultSymbolsTable)"
proof -
  have h1: "funcRegExp ''f(x)'' \<or> varNameRegExp ''f(x)''"
    by (simp add: funcRegExp_def is_lower_def)
  have h2: "CHR ''='' \<in> set ''total =  ''" by simp
  have h3: "split CHR ''='' ''total =  '' = ''total '' # ''  '' # []" by simp
  have h4: "trim ''  '' = []" by (simp add: trim_def is_space_def)
  have h5: "funcRegExp (trim ''total '') \<or> varNameRegExp (trim ''total '')"
    by (simp add: trim_def is_space_def varNameRegExp_def is_lower_def)
  note c = C10_empty_input[of _ 0 _ getDefaultSymbolsTable "''f(x)''" "''total =  ''"
      "''total ''" "''  ''" "[]"]
  from c h1 have a: "handleAssignment 1 getDefaultSymbolsTable ''f(x)'' []
      = Some (Inl TypeError, getDefaultSymbolsTable)"
    by simp
  from c h2 h3 h4 h5 have b: "run 1 getDefaultSymbolsTable ''total =  ''
      = Some (Inl TypeError, getDefaultSymbolsTable)"
    by simp
  from h1 h2 h3 h4 h5 a b show ?thesis by simp
qed

end
